theory Spec2Isabelle
  imports Main "HOL-Library.AList"
begin

section \<open>Errors\<close>

text \<open>
  Go error values as the package meets them.  \<open>EOF\<close> is the sentinel \<^verbatim>\<open>io.EOF\<close>,
  \<open>ErrNoFeed\<close> the package's own sentinel; both are compared by identity in the source.
  \<open>New s\<close> is any other error value whose \<^verbatim>\<open>Error()\<close> text is \<open>s\<close> (made by
  \<^verbatim>\<open>errors.New\<close>, \<^verbatim>\<open>fmt.Errorf\<close>, or handed over by a library or the transport).
  \<open>URLError op u e\<close> is a \<^verbatim>\<open>*url.Error\<close> with fields Op, URL and Err.
\<close>

datatype error = EOF | ErrNoFeed | New string | URLError string string error

text \<open>
  \<^verbatim>\<open>err.Error()\<close>, which is what the verb \<^verbatim>\<open>%s\<close> prints.  The first argument
  is \<^verbatim>\<open>strconv.Quote\<close> (the verb \<^verbatim>\<open>%q\<close>), which the text of a \<^verbatim>\<open>*url.Error\<close> uses.
\<close>

fun message :: "(string \<Rightarrow> string) \<Rightarrow> error \<Rightarrow> string" where
  "message q EOF = ''EOF''"
| "message q ErrNoFeed = ''no feed found''"
| "message q (New s) = s"
| "message q (URLError op u e) = op @ '' '' @ q u @ '': '' @ message q e"

section \<open>The HTML feed extractor\<close>

text \<open>
  The token kinds of \<^verbatim>\<open>golang.org/x/net/html\<close> other than \<^verbatim>\<open>ErrorToken\<close>.  A tokenizer
  run is the list of tokens that \<^verbatim>\<open>z.Next()\<close> yields before it yields \<^verbatim>\<open>ErrorToken\<close>,
  together with the value of \<^verbatim>\<open>z.Err()\<close> at that point.
\<close>

datatype tokenType =
  TextToken | StartTagToken | EndTagToken | SelfClosingTagToken | CommentToken | DoctypeToken

record token =
  ttype :: tokenType
  tagName :: string
  attrs :: "(string \<times> string) list"

text \<open>The inner loop of \<^verbatim>\<open>processHTML\<close>: \<^verbatim>\<open>for hasAttrs { attr, val, hasAttrs = z.TagAttr() ... }\<close>.\<close>

fun scanAttrs :: "(string \<times> string) list \<Rightarrow> string option" where
  "scanAttrs [] = None"
| "scanAttrs ((attr, val) # rest) =
     (if attr = ''feed-url'' \<and> length val > 0 then Some val else scanAttrs rest)"

text \<open>The outer loop of \<^verbatim>\<open>processHTML\<close> over the tokens, \<open>zerr\<close> being \<^verbatim>\<open>z.Err()\<close>.\<close>

fun processHTML :: "token list \<Rightarrow> error \<Rightarrow> string \<times> error option" where
  "processHTML [] zerr = ('''', Some zerr)"
| "processHTML (t # ts) zerr =
     (if ttype t \<noteq> StartTagToken then processHTML ts zerr
      else if tagName t \<noteq> ''button'' then processHTML ts zerr
      else (case scanAttrs (attrs t) of
              Some val \<Rightarrow> (val, None)
            | None \<Rightarrow> processHTML ts zerr))"

section \<open>The structured-redirect extractor\<close>

definition prevLine :: string where
  "prevLine = ''<key>kind</key><string>Goto</string>''"

text \<open>
  The class \<^verbatim>\<open>\s\<close> of Go's regular expressions: tab, newline, form feed, carriage
  return and space.
\<close>

definition isSpace :: "char \<Rightarrow> bool" where
  "isSpace c = (c = CHR 0x09 \<or> c = CHR 0x0A \<or> c = CHR 0x0C \<or> c = CHR 0x0D \<or> c = CHR 0x20)"

definition urlOpen :: string where
  "urlOpen = ''<key>url</key><string>''"

definition urlClose :: string where
  "urlClose = ''</string>''"

text \<open>
  \<^verbatim>\<open>reGoto.FindSubmatch\<close> for the pattern \<^verbatim>\<open>^<key>url</key><string>(\S+)</string>$\<close>.
  The pattern is anchored at both ends, so a line matches just when it begins with the
  opening literal, ends with the closing literal, and what lies between is at least one
  byte long and free of \<^verbatim>\<open>\s\<close>; the only possible capture is that middle part.  The
  result is the slice the library returns: empty (nil) for no match, else the whole match
  followed by the capture.
\<close>

definition reGoto_FindSubmatch :: "string \<Rightarrow> string list" where
  "reGoto_FindSubmatch line =
     (let n = length line; p = length urlOpen; s = length urlClose;
          mid = take (n - p - s) (drop p line)
      in if p + s + 1 \<le> n \<and> take p line = urlOpen \<and> drop (n - s) line = urlClose
            \<and> list_all (\<lambda>c. \<not> isSpace c) mid
         then [line, mid] else [])"

text \<open>
  The end of \<^verbatim>\<open>processXML\<close>, reached when \<^verbatim>\<open>Scan\<close> has returned false, in the loop
  condition or at the \<^verbatim>\<open>break\<close>: the scanner's error, or \<^verbatim>\<open>io.EOF\<close> when it has none.
\<close>

definition endOfScan :: "error option \<Rightarrow> error" where
  "endOfScan serr = (case serr of None \<Rightarrow> EOF | Some e \<Rightarrow> e)"

text \<open>
  \<^verbatim>\<open>processXML\<close> over the lines that \<^verbatim>\<open>scanner.Scan()\<close> yields; \<open>serr\<close> is
  \<^verbatim>\<open>scanner.Err()\<close> once \<^verbatim>\<open>Scan\<close> has returned false, and \<open>unescape\<close> is
  \<^verbatim>\<open>html.UnescapeString\<close>.
\<close>

fun processXML :: "(string \<Rightarrow> string) \<Rightarrow> string list \<Rightarrow> error option \<Rightarrow> string \<times> error option" where
  "processXML unescape [] serr = ('''', Some (endOfScan serr))"
| "processXML unescape (l # ls) serr =
     (if l \<noteq> prevLine then processXML unescape ls serr
      else (case ls of
              [] \<Rightarrow> ('''', Some (endOfScan serr))
            | nxt # rest \<Rightarrow>
                (let matches = reGoto_FindSubmatch nxt
                 in if length matches \<noteq> 2 then processXML unescape rest serr
                    else (unescape (matches ! 1), None))))"

section \<open>Requests, responses and the transport\<close>

record request =
  reqMethod :: string
  rurl :: string
  header :: "(string \<times> string) list"

text \<open>
  A response body is a reader that this package hands to exactly one of two library
  readers.  It is represented by what each of them would produce from it: the tokenizer
  run (\<open>htmlTokens\<close>, \<open>htmlErr\<close>) and the scanner run (\<open>xmlLines\<close>, \<open>scanErr\<close>).
\<close>

record body =
  htmlTokens :: "token list"
  htmlErr :: error
  xmlLines :: "string list"
  scanErr :: "error option"

text \<open>
  The fields of \<^verbatim>\<open>http.Response\<close> that the package reads; \<open>contentType\<close> is
  \<^verbatim>\<open>resp.Header.Get("Content-Type")\<close>.
\<close>

record response =
  statusCode :: int
  status :: string
  contentType :: string
  respBody :: body

text \<open>
  The interface \<^verbatim>\<open>Client\<close>: \<^verbatim>\<open>Do\<close> answers a request with an error or a response and
  may change the client's own state \<open>'s\<close> (a server, a counter, a script of answers).  As
  the contract of \<^verbatim>\<open>http.Client.Do\<close> has it, an answer with a non-nil error carries no
  response that is still to be closed, so an answer is one or the other.
\<close>

type_synonym 's client = "request \<Rightarrow> 's \<Rightarrow> (error + response) \<times> 's"

text \<open>
  The library functions the package calls, none of them part of this repository:
  \<open>urlParse u\<close> is the error of \<^verbatim>\<open>http.NewRequest("GET", u, nil)\<close> if it has one,
  \<open>parseMediaType\<close> is \<^verbatim>\<open>mime.ParseMediaType\<close> (media type and parameters, or an error),
  \<open>quote\<close> is the verb \<^verbatim>\<open>%q\<close>, \<open>unescapeString\<close> is \<^verbatim>\<open>html.UnescapeString\<close> and
  \<open>defaultClient\<close> is \<^verbatim>\<open>http.DefaultClient\<close>.
\<close>

record 's lib =
  urlParse :: "string \<Rightarrow> error option"
  parseMediaType :: "string \<Rightarrow> error + string \<times> (string \<times> string) list"
  quote :: "string \<Rightarrow> string"
  unescapeString :: "string \<Rightarrow> string"
  defaultClient :: "'s client"

text \<open>
  What a resolution does to the outside.  \<open>Do r b\<close> is a call of the client with
  request \<open>r\<close>; \<open>b\<close> is \<open>Some h\<close> when the client returned a response, \<open>h\<close> being the
  handle of its body, and \<open>None\<close> when it returned an error.  \<open>Close h\<close> is
  \<^verbatim>\<open>Body.Close()\<close> on the body with handle \<open>h\<close>.  The handle of a body is the number of
  calls of the client made before the one that returned it.
\<close>

datatype event = Do request "nat option" | Close nat

fun isDo :: "event \<Rightarrow> bool" where
  "isDo (Do r b) = True"
| "isDo (Close n) = False"

record 's world =
  transport :: 's
  events :: "event list"

text \<open>The number of calls of the client in a log.\<close>

definition fetches :: "event list \<Rightarrow> nat" where
  "fetches evs = length (filter isDo evs)"

definition closeBody :: "nat \<Rightarrow> 's world \<Rightarrow> 's world" where
  "closeBody h w = w\<lparr>events := events w @ [Close h]\<rparr>"

section \<open>The resolution pipeline\<close>

definition iTunesUA :: string where
  "iTunesUA = ''iTunes/10.1''"

definition maxRedirects :: int where
  "maxRedirects = 3"

text \<open>\<^verbatim>\<open>http.NewRequest(method, u, nil)\<close>: the library's error, or a request with no header.\<close>

definition httpNewRequest :: "'s lib \<Rightarrow> string \<Rightarrow> string \<Rightarrow> error + request" where
  "httpNewRequest L m u =
     (case urlParse L u of
        Some err \<Rightarrow> Inl err
      | None \<Rightarrow> Inr \<lparr>reqMethod = m, rurl = u, header = []\<rparr>)"

definition newRequest :: "'s lib \<Rightarrow> string \<Rightarrow> error + request" where
  "newRequest L u =
     (case httpNewRequest L ''GET'' u of
        Inl err \<Rightarrow> Inl (case err of URLError op v e \<Rightarrow> e | _ \<Rightarrow> err)
      | Inr req \<Rightarrow> Inr (req\<lparr>header := AList.update ''User-Agent'' iTunesUA (header req)\<rparr>))"

text \<open>
  \<^verbatim>\<open>fetch\<close>.  On success the response comes with the handle of its body, the number of
  earlier calls of the client.
\<close>

definition fetch :: "'s lib \<Rightarrow> 's client \<Rightarrow> string \<Rightarrow> 's world \<Rightarrow> (error + response \<times> nat) \<times> 's world" where
  "fetch L c u w =
     (case newRequest L u of
        Inl err \<Rightarrow> (Inl (New (''bad URL: '' @ message (quote L) err)), w)
      | Inr req \<Rightarrow>
          (let h = fetches (events w);
               (r, s') = c req (transport w);
               w' = w\<lparr>transport := s',
                      events := events w @ [Do req (case r of Inl err \<Rightarrow> None | Inr resp \<Rightarrow> Some h)]\<rparr>
           in case r of
                Inl err \<Rightarrow> (Inl err, w')
              | Inr resp \<Rightarrow>
                  if statusCode resp \<noteq> 200
                  then (Inl (New (''HTTP Status '' @ status resp)), closeBody h w')
                  else (Inr (resp, h), w')))"

text \<open>
  \<^verbatim>\<open>processURL\<close>.  The deferred \<^verbatim>\<open>resp.Body.Close()\<close> runs when the call returns, that is
  after the value to return has been computed, the nested call included.  The counter
  \<open>redirects\<close> is a Go \<^verbatim>\<open>int\<close>: \<^verbatim>\<open>ToRSSClient\<close> starts it at 0 and a nested call is made
  only with a value of at most 3, far from where machine arithmetic wraps, so an integer
  models it.
\<close>

function processURL :: "'s lib \<Rightarrow> 's client \<Rightarrow> string \<Rightarrow> int \<Rightarrow> 's world \<Rightarrow> (string \<times> error option) \<times> 's world" where
  "processURL L c u redirects w =
     (case fetch L c u w of
        (Inl err, w1) \<Rightarrow> (('''', Some (New (''fetch error: '' @ message (quote L) err))), w1)
      | (Inr (resp, h), w1) \<Rightarrow>
          (let ctype = contentType resp;
               (res, w2) =
                 (case parseMediaType L ctype of
                    Inl err \<Rightarrow>
                      (('''', Some (New (''bad Content Type '' @ quote L ctype @ '': ''
                                          @ message (quote L) err))), w1)
                  | Inr (media, params) \<Rightarrow>
                      if media = ''text/html''
                      then (processHTML (htmlTokens (respBody resp)) (htmlErr (respBody resp)), w1)
                      else if media = ''text/xml'' \<or> media = ''application/xml''
                      then (case processXML (unescapeString L) (xmlLines (respBody resp))
                                   (scanErr (respBody resp)) of
                              (nxt, Some err) \<Rightarrow> (('''', Some err), w1)
                            | (nxt, None) \<Rightarrow>
                                if redirects + 1 > maxRedirects
                                then (('''', Some (New ''too many redirects'')), w1)
                                else processURL L c nxt (redirects + 1) w1)
                      else (('''', Some (New (''unexpected Content Type '' @ quote L ctype))), w1))
           in (res, closeBody h w2)))"
  by pat_completeness auto
termination
  by (relation "measure (\<lambda>(L, c, u, redirects, w). nat (maxRedirects + 1 - redirects))") auto

declare processURL.simps [simp del]

text \<open>\<^verbatim>\<open>ToRSSClient\<close>; \<open>None\<close> is the nil client.\<close>

definition ToRSSClient :: "'s lib \<Rightarrow> 's client option \<Rightarrow> string \<Rightarrow> 's world \<Rightarrow> (string \<times> error option) \<times> 's world" where
  "ToRSSClient L c u w =
     (let c' = (case c of None \<Rightarrow> defaultClient L | Some d \<Rightarrow> d);
          ((feed, err), w') = processURL L c' u 0 w
      in ((feed, if err = Some EOF then Some ErrNoFeed else err), w'))"

definition ToRSS :: "'s lib \<Rightarrow> string \<Rightarrow> 's world \<Rightarrow> (string \<times> error option) \<times> 's world" where
  "ToRSS L u w = ToRSSClient L None u w"

section \<open>Notions used to state the properties\<close>

subsection \<open>The extractors, as the specification words them\<close>

text \<open>An attribute named \<^verbatim>\<open>feed-url\<close> with a non-empty value.\<close>

definition spec_feedAttr :: "string \<times> string \<Rightarrow> bool" where
  "spec_feedAttr av = (fst av = ''feed-url'' \<and> snd av \<noteq> [])"

text \<open>A start tag named \<^verbatim>\<open>button\<close> that carries such an attribute.\<close>

definition spec_feedButton :: "token \<Rightarrow> bool" where
  "spec_feedButton t =
     (ttype t = StartTagToken \<and> tagName t = ''button'' \<and> list_ex spec_feedAttr (attrs t))"

text \<open>
  The value of the first such attribute of the first such tag; else no value and the
  tokenizer's terminating signal.
\<close>

definition spec_processHTML :: "token list \<Rightarrow> error \<Rightarrow> string \<times> error option" where
  "spec_processHTML ts zerr =
     (case find spec_feedButton ts of
        None \<Rightarrow> ('''', Some zerr)
      | Some t \<Rightarrow> (case find spec_feedAttr (attrs t) of
                    None \<Rightarrow> ('''', Some zerr)
                  | Some av \<Rightarrow> (snd av, None)))"

text \<open>
  A line that the pattern \<^verbatim>\<open>^<key>url</key><string>(\S+)</string>$\<close> matches with capture
  \<open>cap\<close>.
\<close>

definition spec_urlLine :: "string \<Rightarrow> string \<Rightarrow> bool" where
  "spec_urlLine line cap =
     (line = urlOpen @ cap @ urlClose \<and> cap \<noteq> [] \<and> list_all (\<lambda>c. \<not> isSpace c) cap)"

subsection \<open>Redirect chains\<close>

text \<open>The client that a call of \<^verbatim>\<open>ToRSSClient\<close> uses.\<close>

definition theClient :: "'s lib \<Rightarrow> 's client option \<Rightarrow> 's client" where
  "theClient L co = (case co of None \<Rightarrow> defaultClient L | Some d \<Rightarrow> d)"

text \<open>The request that \<^verbatim>\<open>newRequest\<close> builds for a URL the library accepts.\<close>

definition getRequest :: "string \<Rightarrow> request" where
  "getRequest u = \<lparr>reqMethod = ''GET'', rurl = u, header = [(''User-Agent'', iTunesUA)]\<rparr>"

text \<open>
  One hop that is a structured redirect: fetching \<open>u\<close> in world \<open>w\<close> gives a response with
  an XML media type from which \<^verbatim>\<open>processXML\<close> extracts the target \<open>nxt\<close>; \<open>h\<close> is the handle
  of the response's body and \<open>w1\<close> the world after the fetch.
\<close>

definition hop :: "'s lib \<Rightarrow> 's client \<Rightarrow> string \<Rightarrow> 's world \<Rightarrow> (string \<times> nat \<times> 's world) option" where
  "hop L c u w =
     (case fetch L c u w of
        (Inl err, w1) \<Rightarrow> None
      | (Inr (resp, h), w1) \<Rightarrow>
          (case parseMediaType L (contentType resp) of
             Inl err \<Rightarrow> None
           | Inr (media, params) \<Rightarrow>
               if media = ''text/xml'' \<or> media = ''application/xml''
               then (case processXML (unescapeString L) (xmlLines (respBody resp))
                            (scanErr (respBody resp)) of
                       (nxt, Some err) \<Rightarrow> None
                     | (nxt, None) \<Rightarrow> Some (nxt, h, w1))
               else None))"

text \<open>
  A chain of \<open>n\<close> such hops from \<open>u\<close>: the last target extracted, the handles of the
  bodies obtained on the way (first hop first), and the world after the \<open>n\<close>-th fetch.
\<close>

fun follow :: "'s lib \<Rightarrow> 's client \<Rightarrow> nat \<Rightarrow> string \<Rightarrow> 's world \<Rightarrow> (string \<times> nat list \<times> 's world) option" where
  "follow L c 0 u w = Some (u, [], w)"
| "follow L c (Suc n) u w =
     (case hop L c u w of
        None \<Rightarrow> None
      | Some (nxt, h, w1) \<Rightarrow>
          (case follow L c n nxt w1 of
             None \<Rightarrow> None
           | Some (u', hs, w') \<Rightarrow> Some (u', h # hs, w')))"

subsection \<open>Disciplines for closing bodies\<close>

text \<open>The events that a run from world \<open>w\<close> to world \<open>w'\<close> has added to the log.\<close>

definition added :: "'s world \<Rightarrow> 's world \<Rightarrow> event list" where
  "added w w' = drop (length (events w)) (events w')"

text \<open>
  \<open>scoped evs st\<close>: run from the stack \<open>st\<close> of open bodies, the log \<open>evs\<close> closes only the
  body obtained last among those still open, and leaves no body open.
\<close>

fun scoped :: "event list \<Rightarrow> nat list \<Rightarrow> bool" where
  "scoped [] st = (st = [])"
| "scoped (Do r None # es) st = scoped es st"
| "scoped (Do r (Some h) # es) st = scoped es (h # st)"
| "scoped (Close h # es) st = (case st of [] \<Rightarrow> False | k # st' \<Rightarrow> k = h \<and> scoped es st')"

text \<open>
  The discipline as the specification words it: a body is closed before the next call of
  the client, so no body is open when the client is called.
\<close>

fun spec_scoped :: "event list \<Rightarrow> nat list \<Rightarrow> bool" where
  "spec_scoped [] st = (st = [])"
| "spec_scoped (Do r b # es) st =
     (st = [] \<and> spec_scoped es (case b of None \<Rightarrow> [] | Some h \<Rightarrow> [h]))"
| "spec_scoped (Close h # es) st = (st = [h] \<and> spec_scoped es [])"

section \<open>A test server\<close>

text \<open>
  Concrete library functions and a concrete client, in the manner of the package's tests
  (a file server with canned pages), on which the properties are exercised.
\<close>

definition demoQuote :: "string \<Rightarrow> string" where
  "demoQuote s = CHR 0x22 # s @ [CHR 0x22]"

fun demoUnescape :: "string \<Rightarrow> string" where
  "demoUnescape [] = []"
| "demoUnescape (c # cs) =
     (if c = CHR ''&'' \<and> take 4 cs = ''amp;'' then CHR ''&'' # demoUnescape (drop 4 cs)
      else c # demoUnescape cs)"

definition demoUrlParse :: "string \<Rightarrow> error option" where
  "demoUrlParse u =
     (if take 3 u = ''://'' then Some (URLError ''parse'' u (New ''missing protocol scheme''))
      else None)"

definition demoMediaType :: "string \<Rightarrow> error + string \<times> (string \<times> string) list" where
  "demoMediaType ct =
     (if ct = [] then Inl (New ''mime: no media type'')
      else Inr (takeWhile (\<lambda>c. c \<noteq> CHR '';'') ct, []))"

definition htmlPage :: "token list \<Rightarrow> response" where
  "htmlPage ts =
     \<lparr>statusCode = 200, status = ''200 OK'', contentType = ''text/html; charset=utf-8'',
      respBody = \<lparr>htmlTokens = ts, htmlErr = EOF, xmlLines = [], scanErr = None\<rparr>\<rparr>"

definition xmlPage :: "string list \<Rightarrow> response" where
  "xmlPage ls =
     \<lparr>statusCode = 200, status = ''200 OK'', contentType = ''text/xml'',
      respBody = \<lparr>htmlTokens = [], htmlErr = EOF, xmlLines = ls, scanErr = None\<rparr>\<rparr>"

definition gotoPage :: "string \<Rightarrow> response" where
  "gotoPage target = xmlPage [''<dict>'', prevLine, urlOpen @ target @ urlClose, ''</dict>'']"

definition feedButton :: token where
  "feedButton =
     \<lparr>ttype = StartTagToken, tagName = ''button'',
      attrs = [(''class'', ''subscribe''), (''feed-url'', ''http://feeds/rss'')]\<rparr>"

definition gonePage :: response where
  "gonePage =
     \<lparr>statusCode = 404, status = ''404 Not Found'', contentType = ''text/plain'',
      respBody = \<lparr>htmlTokens = [], htmlErr = EOF, xmlLines = [], scanErr = None\<rparr>\<rparr>"

definition oddPage :: response where
  "oddPage = gonePage\<lparr>status := ''404 Nope''\<rparr>"

definition pngPage :: response where
  "pngPage = (htmlPage [])\<lparr>contentType := ''image/png''\<rparr>"

definition untypedPage :: response where
  "untypedPage = (htmlPage [])\<lparr>contentType := []\<rparr>"

definition divTag :: token where
  "divTag = \<lparr>ttype = StartTagToken, tagName = ''div'', attrs = []\<rparr>"

definition endButton :: token where
  "endButton = \<lparr>ttype = EndTagToken, tagName = ''button'', attrs = []\<rparr>"

definition demoPage :: "string \<Rightarrow> error + response" where
  "demoPage u =
     (if u = ''feed'' then Inr (htmlPage [divTag, feedButton, endButton])
      else if u = ''p1'' then Inr (gotoPage ''feed'')
      else if u = ''p2'' then Inr (gotoPage ''p1'')
      else if u = ''p3'' then Inr (gotoPage ''p2'')
      else if u = ''p4'' then Inr (gotoPage ''p3'')
      else if u = ''loop'' then Inr (gotoPage ''loop'')
      else if u = ''nofeed'' then
        Inr (htmlPage [divTag])
      else if u = ''q1'' then Inr (gotoPage ''q0'')
      else if u = ''q0'' then Inr (xmlPage [''<dict>'', prevLine])
      else if u = ''gone'' then Inr gonePage
      else if u = ''odd'' then Inr oddPage
      else if u = ''png'' then Inr pngPage
      else if u = ''noct'' then Inr untypedPage
      else Inl (New ''connection refused''))"

text \<open>The client counts the requests it has served.\<close>

definition demoClient :: "nat client" where
  "demoClient req n = (demoPage (rurl req), Suc n)"

definition demoLib :: "nat lib" where
  "demoLib =
     \<lparr>urlParse = demoUrlParse, parseMediaType = demoMediaType, quote = demoQuote,
      unescapeString = demoUnescape, defaultClient = demoClient\<rparr>"

definition w0 :: "nat world" where
  "w0 = \<lparr>transport = 0, events = []\<rparr>"

text \<open>
  The world after the client, started in \<open>w0\<close>, has answered requests for the URLs \<open>us\<close>
  with a response each, no body closed yet.
\<close>

definition demoWorld :: "string list \<Rightarrow> nat world" where
  "demoWorld us =
     \<lparr>transport = length us,
      events = map (\<lambda>(u, h). Do (getRequest u) (Some h)) (zip us [0..<length us])\<rparr>"

section \<open>The HTML feed extractor: properties\<close>

lemma scanAttrs_find: "scanAttrs as = map_option snd (find spec_feedAttr as)"
  by (induction as rule: scanAttrs.induct) (auto simp: spec_feedAttr_def)

lemma scanAttrs_None_iff: "scanAttrs as = None \<longleftrightarrow> \<not> list_ex spec_feedAttr as"
  by (induction as rule: scanAttrs.induct) (auto simp: spec_feedAttr_def)

lemma scanAttrs_first:
  "\<not> list_ex spec_feedAttr as1 \<Longrightarrow> v \<noteq> [] \<Longrightarrow> scanAttrs (as1 @ (''feed-url'', v) # as2) = Some v"
  by (induction as1 rule: scanAttrs.induct) (auto simp: spec_feedAttr_def)

lemma processHTML_refines: "processHTML ts zerr = spec_processHTML ts zerr"
proof (induction ts)
  case Nil
  show ?case by (simp add: spec_processHTML_def)
next
  case (Cons t ts)
  show ?case
  proof (cases "spec_feedButton t")
    case True
    then obtain v where v: "scanAttrs (attrs t) = Some v"
      using scanAttrs_None_iff [of "attrs t"] by (auto simp: spec_feedButton_def)
    with True show ?thesis
      by (auto simp: spec_processHTML_def spec_feedButton_def scanAttrs_find split: option.splits)
  next
    case False
    then have "ttype t \<noteq> StartTagToken \<or> tagName t \<noteq> ''button'' \<or> scanAttrs (attrs t) = None"
      by (simp add: spec_feedButton_def scanAttrs_None_iff)
    with False Cons.IH show ?thesis
      by (auto simp: spec_processHTML_def)
  qed
qed

lemma processHTML_skip:
  "\<not> list_ex spec_feedButton pre \<Longrightarrow> processHTML (pre @ ts) zerr = processHTML ts zerr"
  by (induction pre) (auto simp: spec_feedButton_def scanAttrs_None_iff [symmetric])

lemma processHTML_error_empty: "processHTML ts zerr = (feed, Some e) \<Longrightarrow> feed = []"
  by (induction ts) (auto split: if_splits option.splits)

text \<open>
  C3.  On every token stream \<^verbatim>\<open>processHTML\<close> computes what the specification words: the
  value of the first attribute named exactly \<^verbatim>\<open>feed-url\<close> with a non-empty value on the
  first start tag named exactly \<^verbatim>\<open>button\<close> that has one.  It returns that value with a
  nil error whatever tokens follow (it does not scan further), and when the stream has no
  such tag it returns the empty string with the tokenizer's terminating error, be that
  \<^verbatim>\<open>io.EOF\<close> or another error, unchanged.
\<close>

theorem processHTML_first_feed_button:
  "processHTML ts zerr = spec_processHTML ts zerr
   \<and> (\<not> list_ex spec_feedButton pre \<and> ttype t = StartTagToken \<and> tagName t = ''button''
        \<and> attrs t = as1 @ (''feed-url'', v) # as2 \<and> \<not> list_ex spec_feedAttr as1 \<and> v \<noteq> []
      \<longrightarrow> processHTML (pre @ t # post) zerr = (v, None))
   \<and> (\<not> list_ex spec_feedButton ts \<longrightarrow> processHTML ts zerr = ([], Some zerr))"
proof (intro conjI impI)
  show "processHTML ts zerr = spec_processHTML ts zerr" by (rule processHTML_refines)
next
  assume a: "\<not> list_ex spec_feedButton pre \<and> ttype t = StartTagToken \<and> tagName t = ''button''
        \<and> attrs t = as1 @ (''feed-url'', v) # as2 \<and> \<not> list_ex spec_feedAttr as1 \<and> v \<noteq> []"
  then have "scanAttrs (attrs t) = Some v" using scanAttrs_first by simp
  with a show "processHTML (pre @ t # post) zerr = (v, None)"
    by (simp add: processHTML_skip)
next
  assume "\<not> list_ex spec_feedButton ts"
  then show "processHTML ts zerr = ([], Some zerr)"
    using processHTML_skip [of ts "[]" zerr] by simp
qed

theorem processHTML_first_feed_button_witness:
  "\<not> list_ex spec_feedButton [divTag] \<and> \<not> list_ex spec_feedAttr [(''class'', ''subscribe'')]
   \<and> processHTML ([divTag] @ feedButton # [endButton, feedButton]) (New ''unexpected EOF'')
       = (''http://feeds/rss'', None)
   \<and> processHTML [divTag] (New ''unexpected EOF'') = ([], Some (New ''unexpected EOF''))"
  using processHTML_first_feed_button
    [where ts = "[divTag]" and zerr = "New ''unexpected EOF''" and pre = "[divTag]"
       and t = feedButton and ?as1.0 = "[(''class'', ''subscribe'')]"
       and v = "''http://feeds/rss''" and ?as2.0 = "[]" and post = "[endButton, feedButton]"]
  by (simp add: spec_feedButton_def spec_feedAttr_def divTag_def feedButton_def)

section \<open>The structured-redirect extractor: properties\<close>

lemma reGoto_match: "spec_urlLine line cap \<Longrightarrow> reGoto_FindSubmatch line = [line, cap]"
  by (cases cap) (auto simp: reGoto_FindSubmatch_def spec_urlLine_def Let_def)

lemma reGoto_shape: "reGoto_FindSubmatch line = [] \<or> (\<exists>cap. spec_urlLine line cap)"
proof (cases "reGoto_FindSubmatch line = []")
  case True
  then show ?thesis by simp
next
  case False
  define n where "n = length line"
  define p where "p = length urlOpen"
  define s where "s = length urlClose"
  define mid where "mid = take (n - p - s) (drop p line)"
  from False have c: "p + s + 1 \<le> n" "take p line = urlOpen" "drop (n - s) line = urlClose"
    "list_all (\<lambda>c. \<not> isSpace c) mid"
    unfolding reGoto_FindSubmatch_def Let_def n_def p_def s_def mid_def
    by (auto split: if_splits)
  have "line = take p line @ drop p line" by simp
  also have "drop p line = take (n - p - s) (drop p line) @ drop (n - p - s) (drop p line)"
    by (simp only: append_take_drop_id)
  also have "drop (n - p - s) (drop p line) = drop (n - s) line"
    using c(1) by (simp add: n_def)
  finally have "line = urlOpen @ mid @ urlClose"
    using c(2,3) by (simp add: mid_def)
  moreover have "mid \<noteq> []" using c(1) by (auto simp: mid_def n_def)
  ultimately have "spec_urlLine line mid" using c(4) by (simp add: spec_urlLine_def)
  then show ?thesis by blast
qed

lemma reGoto_prevLine: "reGoto_FindSubmatch prevLine = []"
  by (simp add: reGoto_FindSubmatch_def prevLine_def urlOpen_def urlClose_def Let_def)

lemma processXML_skip:
  "prevLine \<notin> set pre \<Longrightarrow> processXML un (pre @ ls) serr = processXML un ls serr"
  by (induction pre) auto

text \<open>
  C4.  \<^verbatim>\<open>processXML\<close> skips lines until one equals the marker
  \<^verbatim>\<open><key>kind</key><string>Goto</string>\<close>.  With no marker line, or with the marker as the
  last line (no next line to read), it stops without a value: the empty string with
  \<^verbatim>\<open>io.EOF\<close>, or with the scanner's error if it has one.  When the line after the marker
  matches \<^verbatim>\<open>^<key>url</key><string>(\S+)</string>$\<close> it returns the unescaped capture with a
  nil error, whatever lines follow.  When that line does not match, scanning goes on with
  the lines after it.  The pattern matches exactly the lines made of the opening literal,
  a non-empty capture without white space, and the closing literal.
\<close>

theorem processXML_goto_url:
  "(prevLine \<notin> set ls \<longrightarrow> processXML un ls serr = ([], Some (endOfScan serr)))
   \<and> (prevLine \<notin> set pre \<longrightarrow> processXML un (pre @ [prevLine]) serr = ([], Some (endOfScan serr)))
   \<and> (prevLine \<notin> set pre \<and> spec_urlLine nxt cap
        \<longrightarrow> processXML un (pre @ prevLine # nxt # post) serr = (un cap, None))
   \<and> (prevLine \<notin> set pre \<and> \<not> (\<exists>cap. spec_urlLine nxt cap)
        \<longrightarrow> processXML un (pre @ prevLine # nxt # post) serr = processXML un post serr)
   \<and> (spec_urlLine line cap \<longrightarrow> reGoto_FindSubmatch line = [line, cap])
   \<and> (reGoto_FindSubmatch line = [] \<or> (\<exists>cap. spec_urlLine line cap))
   \<and> endOfScan None = EOF \<and> endOfScan (Some e) = e"
proof (intro conjI impI)
  assume "prevLine \<notin> set ls"
  then show "processXML un ls serr = ([], Some (endOfScan serr))"
    using processXML_skip [of ls un "[]" serr] by simp
next
  assume "prevLine \<notin> set pre"
  then show "processXML un (pre @ [prevLine]) serr = ([], Some (endOfScan serr))"
    by (simp add: processXML_skip)
next
  assume a: "prevLine \<notin> set pre \<and> spec_urlLine nxt cap"
  then have "reGoto_FindSubmatch nxt = [nxt, cap]" by (simp add: reGoto_match)
  with a show "processXML un (pre @ prevLine # nxt # post) serr = (un cap, None)"
    by (simp add: processXML_skip)
next
  assume a: "prevLine \<notin> set pre \<and> \<not> (\<exists>cap. spec_urlLine nxt cap)"
  then have "reGoto_FindSubmatch nxt = []" using reGoto_shape [of nxt] by blast
  with a show "processXML un (pre @ prevLine # nxt # post) serr = processXML un post serr"
    by (simp add: processXML_skip)
next
  assume "spec_urlLine line cap"
  then show "reGoto_FindSubmatch line = [line, cap]" by (rule reGoto_match)
next
  show "reGoto_FindSubmatch line = [] \<or> (\<exists>cap. spec_urlLine line cap)" by (rule reGoto_shape)
next
  show "endOfScan None = EOF" by (simp add: endOfScan_def)
next
  show "endOfScan (Some e) = e" by (simp add: endOfScan_def)
qed

theorem processXML_goto_url_witness:
  "prevLine \<notin> set [''<dict>''] \<and> spec_urlLine (urlOpen @ ''a?x=&amp;id=1'' @ urlClose) ''a?x=&amp;id=1''
   \<and> processXML demoUnescape [''<dict>''] None = ([], Some EOF)
   \<and> processXML demoUnescape ([''<dict>''] @ [prevLine]) None = ([], Some EOF)
   \<and> processXML demoUnescape
        ([''<dict>''] @ prevLine # (urlOpen @ ''a?x=&amp;id=1'' @ urlClose) # [''</dict>'']) None
       = (''a?x=&id=1'', None)
   \<and> reGoto_FindSubmatch (urlOpen @ ''a?x=&amp;id=1'' @ urlClose)
       = [urlOpen @ ''a?x=&amp;id=1'' @ urlClose, ''a?x=&amp;id=1'']
   \<and> \<not> (\<exists>cap. spec_urlLine (urlOpen @ urlClose) cap)
   \<and> processXML demoUnescape
        ([''<dict>''] @ prevLine # (urlOpen @ urlClose) # [prevLine, urlOpen @ ''feed'' @ urlClose])
        (Some (New ''read error''))
       = processXML demoUnescape [prevLine, urlOpen @ ''feed'' @ urlClose] (Some (New ''read error''))
   \<and> processXML demoUnescape ([''<dict>''] @ [prevLine]) (Some (New ''read error''))
       = ([], Some (New ''read error''))"
proof -
  have h1: "prevLine \<notin> set [''<dict>'']" by (simp add: prevLine_def)
  have h2: "spec_urlLine (urlOpen @ ''a?x=&amp;id=1'' @ urlClose) ''a?x=&amp;id=1''"
    by (simp add: spec_urlLine_def isSpace_def)
  have h3: "\<not> (\<exists>cap. spec_urlLine (urlOpen @ urlClose) cap)"
    by (simp add: spec_urlLine_def)
  have u: "demoUnescape ''a?x=&amp;id=1'' = ''a?x=&id=1''" by simp
  note a = processXML_goto_url
    [where ls = "[''<dict>'']" and un = demoUnescape and serr = None and pre = "[''<dict>'']"
       and nxt = "urlOpen @ ''a?x=&amp;id=1'' @ urlClose" and cap = "''a?x=&amp;id=1''"
       and post = "[''</dict>'']" and line = "urlOpen @ ''a?x=&amp;id=1'' @ urlClose"
       and e = "New ''read error''"]
  note b = processXML_goto_url
    [where ls = "[''<dict>'']" and un = demoUnescape and serr = "Some (New ''read error'')"
       and pre = "[''<dict>'']" and nxt = "urlOpen @ urlClose" and cap = "[]"
       and post = "[prevLine, urlOpen @ ''feed'' @ urlClose]" and line = "urlOpen @ urlClose"
       and e = "New ''read error''"]
  from a h1 h2 u have
    "processXML demoUnescape [''<dict>''] None = ([], Some EOF)"
    "processXML demoUnescape ([''<dict>''] @ [prevLine]) None = ([], Some EOF)"
    "processXML demoUnescape
        ([''<dict>''] @ prevLine # (urlOpen @ ''a?x=&amp;id=1'' @ urlClose) # [''</dict>'']) None
       = (''a?x=&id=1'', None)"
    "reGoto_FindSubmatch (urlOpen @ ''a?x=&amp;id=1'' @ urlClose)
       = [urlOpen @ ''a?x=&amp;id=1'' @ urlClose, ''a?x=&amp;id=1'']"
    by simp_all
  moreover from b h1 h3 have
    "processXML demoUnescape
        ([''<dict>''] @ prevLine # (urlOpen @ urlClose) # [prevLine, urlOpen @ ''feed'' @ urlClose])
        (Some (New ''read error''))
       = processXML demoUnescape [prevLine, urlOpen @ ''feed'' @ urlClose] (Some (New ''read error''))"
    "processXML demoUnescape ([''<dict>''] @ [prevLine]) (Some (New ''read error''))
       = ([], Some (New ''read error''))"
    by simp_all
  ultimately show ?thesis using h1 h2 h3 by (intro conjI)
qed

text \<open>
  C9.  The line read right after a marker line is used only as the candidate for the url
  pattern and is never compared with the marker: on the three lines marker, marker, and a
  line matching the url pattern, \<^verbatim>\<open>processXML\<close> finds no redirect and returns the empty
  string with \<^verbatim>\<open>io.EOF\<close>.
\<close>

theorem processXML_marker_twice:
  "spec_urlLine u cap \<Longrightarrow> processXML un [prevLine, prevLine, u] None = ([], Some EOF)"
proof -
  assume a: "spec_urlLine u cap"
  have "u \<noteq> prevLine"
    using reGoto_match [OF a] reGoto_prevLine by auto
  then show ?thesis by (simp add: reGoto_prevLine endOfScan_def)
qed

theorem processXML_marker_twice_witness:
  "spec_urlLine (urlOpen @ ''feed'' @ urlClose) ''feed''
   \<and> processXML demoUnescape [prevLine, prevLine, urlOpen @ ''feed'' @ urlClose] None
       = ([], Some EOF)"
proof -
  have h: "spec_urlLine (urlOpen @ ''feed'' @ urlClose) ''feed''"
    by (simp add: spec_urlLine_def isSpace_def)
  show ?thesis using h processXML_marker_twice [OF h, of demoUnescape] by simp
qed

section \<open>The transport and the pipeline: auxiliary facts\<close>

lemma newRequest_ok: "urlParse L u = None \<Longrightarrow> newRequest L u = Inr (getRequest u)"
  by (simp add: newRequest_def httpNewRequest_def getRequest_def)

lemma newRequest_bad:
  "urlParse L u = Some e \<Longrightarrow>
   newRequest L u = Inl (case e of URLError op v e' \<Rightarrow> e' | _ \<Rightarrow> e)"
  by (simp add: newRequest_def httpNewRequest_def)

lemma fetch_badURL:
  "urlParse L u = Some e \<Longrightarrow>
   fetch L c u w =
     (Inl (New (''bad URL: '' @ message (quote L) (case e of URLError op v e' \<Rightarrow> e' | _ \<Rightarrow> e))), w)"
  by (simp add: fetch_def newRequest_bad)

lemma fetch_doErr:
  "urlParse L u = None \<Longrightarrow> c (getRequest u) (transport w) = (Inl e, s') \<Longrightarrow>
   fetch L c u w = (Inl e, w\<lparr>transport := s', events := events w @ [Do (getRequest u) None]\<rparr>)"
  by (simp add: fetch_def newRequest_ok)

lemma fetch_status:
  "urlParse L u = None \<Longrightarrow> c (getRequest u) (transport w) = (Inr resp, s') \<Longrightarrow>
   statusCode resp \<noteq> 200 \<Longrightarrow>
   fetch L c u w =
     (Inl (New (''HTTP Status '' @ status resp)),
      w\<lparr>transport := s',
        events := events w @ [Do (getRequest u) (Some (fetches (events w))),
                              Close (fetches (events w))]\<rparr>)"
  by (simp add: fetch_def newRequest_ok closeBody_def Let_def)

lemma fetch_ok:
  "urlParse L u = None \<Longrightarrow> c (getRequest u) (transport w) = (Inr resp, s') \<Longrightarrow>
   statusCode resp = 200 \<Longrightarrow>
   fetch L c u w =
     (Inr (resp, fetches (events w)),
      w\<lparr>transport := s', events := events w @ [Do (getRequest u) (Some (fetches (events w)))]\<rparr>)"
  by (simp add: fetch_def newRequest_ok Let_def)

lemma fetch_cases:
  obtains (badURL) e where "urlParse L u = Some e"
  | (doErr) e s' where "urlParse L u = None" "c (getRequest u) (transport w) = (Inl e, s')"
  | (status) resp s' where "urlParse L u = None" "c (getRequest u) (transport w) = (Inr resp, s')"
      "statusCode resp \<noteq> 200"
  | (ok) resp s' where "urlParse L u = None" "c (getRequest u) (transport w) = (Inr resp, s')"
      "statusCode resp = 200"
proof (cases "urlParse L u")
  case None
  obtain r s' where d: "c (getRequest u) (transport w) = (r, s')" by (cases "c (getRequest u) (transport w)")
  show ?thesis
  proof (cases r)
    case (Inl e)
    with None d doErr show ?thesis by simp
  next
    case (Inr resp)
    with None d status ok show ?thesis by (cases "statusCode resp = 200") auto
  qed
next
  case (Some e)
  with badURL show ?thesis by simp
qed

lemma fetch_Inr:
  assumes "fetch L c u w = (Inr (resp, h), w1)"
  shows "h = fetches (events w) \<and> events w1 = events w @ [Do (getRequest u) (Some h)]
         \<and> statusCode resp = 200 \<and> urlParse L u = None
         \<and> c (getRequest u) (transport w) = (Inr resp, transport w1)"
proof (cases rule: fetch_cases [where L=L and u=u and c=c and w=w])
  case (badURL e)
  with assms show ?thesis by (simp add: fetch_badURL)
next
  case (doErr e s')
  with assms show ?thesis by (simp add: fetch_doErr)
next
  case (status resp' s')
  with assms show ?thesis by (simp add: fetch_status)
next
  case (ok resp' s')
  with assms show ?thesis by (auto simp: fetch_ok)
qed

lemma fetch_Inl:
  assumes "fetch L c u w = (Inl e, w1)"
  shows "events w1 = events w
         \<or> events w1 = events w @ [Do (getRequest u) None]
         \<or> events w1 = events w @ [Do (getRequest u) (Some (fetches (events w))),
                                     Close (fetches (events w))]"
proof (cases rule: fetch_cases [where L=L and u=u and c=c and w=w])
  case (badURL e)
  with assms show ?thesis by (simp add: fetch_badURL)
next
  case (doErr e s')
  with assms show ?thesis by (auto simp: fetch_doErr)
next
  case (status resp' s')
  with assms show ?thesis by (auto simp: fetch_status)
next
  case (ok resp' s')
  with assms show ?thesis by (simp add: fetch_ok)
qed

lemma processURL_fetch_err:
  "fetch L c u w = (Inl e, w1) \<Longrightarrow>
   processURL L c u r w = (('''', Some (New (''fetch error: '' @ message (quote L) e))), w1)"
  by (subst processURL.simps) simp

lemma processURL_bad_ctype:
  "fetch L c u w = (Inr (resp, h), w1) \<Longrightarrow> parseMediaType L (contentType resp) = Inl e \<Longrightarrow>
   processURL L c u r w =
     (('''', Some (New (''bad Content Type '' @ quote L (contentType resp) @ '': ''
                        @ message (quote L) e))), closeBody h w1)"
  by (subst processURL.simps) simp

lemma processURL_html:
  "fetch L c u w = (Inr (resp, h), w1) \<Longrightarrow>
   parseMediaType L (contentType resp) = Inr (''text/html'', ps) \<Longrightarrow>
   processURL L c u r w =
     (processHTML (htmlTokens (respBody resp)) (htmlErr (respBody resp)), closeBody h w1)"
  by (subst processURL.simps) simp

lemma processURL_unexpected:
  "fetch L c u w = (Inr (resp, h), w1) \<Longrightarrow>
   parseMediaType L (contentType resp) = Inr (m, ps) \<Longrightarrow>
   m \<noteq> ''text/html'' \<Longrightarrow> m \<noteq> ''text/xml'' \<Longrightarrow> m \<noteq> ''application/xml'' \<Longrightarrow>
   processURL L c u r w =
     (('''', Some (New (''unexpected Content Type '' @ quote L (contentType resp)))),
      closeBody h w1)"
  by (subst processURL.simps) simp

lemma processURL_xml_err:
  "fetch L c u w = (Inr (resp, h), w1) \<Longrightarrow>
   parseMediaType L (contentType resp) = Inr (m, ps) \<Longrightarrow>
   m = ''text/xml'' \<or> m = ''application/xml'' \<Longrightarrow>
   processXML (unescapeString L) (xmlLines (respBody resp)) (scanErr (respBody resp))
     = (nxt, Some e) \<Longrightarrow>
   processURL L c u r w = (('''', Some e), closeBody h w1)"
  by (subst processURL.simps) auto

lemma processURL_xml_limit:
  "fetch L c u w = (Inr (resp, h), w1) \<Longrightarrow>
   parseMediaType L (contentType resp) = Inr (m, ps) \<Longrightarrow>
   m = ''text/xml'' \<or> m = ''application/xml'' \<Longrightarrow>
   processXML (unescapeString L) (xmlLines (respBody resp)) (scanErr (respBody resp))
     = (nxt, None) \<Longrightarrow>
   r + 1 > maxRedirects \<Longrightarrow>
   processURL L c u r w = (('''', Some (New ''too many redirects'')), closeBody h w1)"
  by (subst processURL.simps) auto

lemma processURL_xml_step:
  "fetch L c u w = (Inr (resp, h), w1) \<Longrightarrow>
   parseMediaType L (contentType resp) = Inr (m, ps) \<Longrightarrow>
   m = ''text/xml'' \<or> m = ''application/xml'' \<Longrightarrow>
   processXML (unescapeString L) (xmlLines (respBody resp)) (scanErr (respBody resp))
     = (nxt, None) \<Longrightarrow>
   \<not> r + 1 > maxRedirects \<Longrightarrow>
   processURL L c u r w =
     (fst (processURL L c nxt (r + 1) w1), closeBody h (snd (processURL L c nxt (r + 1) w1)))"
  by (subst processURL.simps) (auto simp: case_prod_unfold Let_def)

lemma hop_SomeD:
  assumes "hop L c u w = Some (nxt, h, w1)"
  obtains resp m ps where "fetch L c u w = (Inr (resp, h), w1)"
    "parseMediaType L (contentType resp) = Inr (m, ps)"
    "m = ''text/xml'' \<or> m = ''application/xml''"
    "processXML (unescapeString L) (xmlLines (respBody resp)) (scanErr (respBody resp))
       = (nxt, None)"
  using assms unfolding hop_def
  by (auto split: prod.splits sum.splits if_splits option.splits)

lemma processURL_hop_limit:
  assumes "hop L c u w = Some (nxt, h, w1)" "r + 1 > maxRedirects"
  shows "processURL L c u r w = (('''', Some (New ''too many redirects'')), closeBody h w1)"
  using assms(1)
proof (rule hop_SomeD)
  fix resp m ps
  assume "fetch L c u w = (Inr (resp, h), w1)"
    "parseMediaType L (contentType resp) = Inr (m, ps)"
    "m = ''text/xml'' \<or> m = ''application/xml''"
    "processXML (unescapeString L) (xmlLines (respBody resp)) (scanErr (respBody resp))
       = (nxt, None)"
  then show ?thesis using assms(2) by (rule processURL_xml_limit)
qed

lemma processURL_hop_step:
  assumes "hop L c u w = Some (nxt, h, w1)" "\<not> r + 1 > maxRedirects"
  shows "processURL L c u r w =
     (fst (processURL L c nxt (r + 1) w1), closeBody h (snd (processURL L c nxt (r + 1) w1)))"
  using assms(1)
proof (rule hop_SomeD)
  fix resp m ps
  assume "fetch L c u w = (Inr (resp, h), w1)"
    "parseMediaType L (contentType resp) = Inr (m, ps)"
    "m = ''text/xml'' \<or> m = ''application/xml''"
    "processXML (unescapeString L) (xmlLines (respBody resp)) (scanErr (respBody resp))
       = (nxt, None)"
  then show ?thesis using assms(2) by (rule processURL_xml_step)
qed

lemma hop_events:
  "hop L c u w = Some (nxt, h, w1) \<Longrightarrow>
   h = fetches (events w) \<and> events w1 = events w @ [Do (getRequest u) (Some h)]"
  by (erule hop_SomeD) (simp add: fetch_Inr)

lemma processURL_hop_induct [case_names leaf limit step]:
  assumes leaf: "\<And>u r w. hop L c u w = None \<Longrightarrow> P u r w (processURL L c u r w)"
    and limit: "\<And>u r w nxt h w1. hop L c u w = Some (nxt, h, w1) \<Longrightarrow> r + 1 > maxRedirects \<Longrightarrow>
        P u r w (([], Some (New ''too many redirects'')), closeBody h w1)"
    and step: "\<And>u r w nxt h w1. hop L c u w = Some (nxt, h, w1) \<Longrightarrow> \<not> r + 1 > maxRedirects \<Longrightarrow>
        P nxt (r + 1) w1 (processURL L c nxt (r + 1) w1) \<Longrightarrow>
        P u r w (fst (processURL L c nxt (r + 1) w1),
                 closeBody h (snd (processURL L c nxt (r + 1) w1)))"
  shows "P u r w (processURL L c u r w)"
proof (induction "nat (maxRedirects + 1 - r)" arbitrary: u r w rule: less_induct)
  case less
  show ?case
  proof (cases "hop L c u w")
    case None
    then show ?thesis by (rule leaf)
  next
    case (Some x)
    obtain nxt h w1 where x: "x = (nxt, h, w1)" by (cases x)
    show ?thesis
    proof (cases "r + 1 > maxRedirects")
      case True
      from Some x have h: "hop L c u w = Some (nxt, h, w1)" by simp
      from limit [OF h True] processURL_hop_limit [OF h True] show ?thesis by simp
    next
      case False
      from Some x have h: "hop L c u w = Some (nxt, h, w1)" by simp
      from False have "nat (maxRedirects + 1 - (r + 1)) < nat (maxRedirects + 1 - r)" by simp
      then have "P nxt (r + 1) w1 (processURL L c nxt (r + 1) w1)" by (rule less)
      from step [OF h False this] processURL_hop_step [OF h False] show ?thesis by simp
    qed
  qed
qed

lemma processURL_leaf:
  assumes "hop L c u w = None"
  obtains (fetchErr) e w1 where "fetch L c u w = (Inl e, w1)"
      "processURL L c u r w = (([], Some (New (''fetch error: '' @ message (quote L) e))), w1)"
  | (page) resp h w1 feed err where "fetch L c u w = (Inr (resp, h), w1)"
      "processURL L c u r w = ((feed, err), closeBody h w1)" "err \<noteq> None \<longrightarrow> feed = []"
proof -
  obtain x w1 where f: "fetch L c u w = (x, w1)" by (cases "fetch L c u w")
  show ?thesis
  proof (cases x)
    case (Inl e)
    with f fetchErr processURL_fetch_err show ?thesis by blast
  next
    case (Inr y)
    obtain resp h where y: "y = (resp, h)" by (cases y)
    with f Inr have f': "fetch L c u w = (Inr (resp, h), w1)" by simp
    show ?thesis
    proof (cases "parseMediaType L (contentType resp)")
      case (Inl e)
      from processURL_bad_ctype [OF f' Inl] page [OF f'] show ?thesis by blast
    next
      case (Inr mp)
      obtain m ps where mp: "mp = (m, ps)" by (cases mp)
      with Inr have p: "parseMediaType L (contentType resp) = Inr (m, ps)" by simp
      consider (html) "m = ''text/html''" | (xml) "m = ''text/xml'' \<or> m = ''application/xml''"
        | (other) "m \<noteq> ''text/html''" "m \<noteq> ''text/xml''" "m \<noteq> ''application/xml''"
        by blast
      then show ?thesis
      proof cases
        case html
        obtain feed err where h: "processHTML (htmlTokens (respBody resp)) (htmlErr (respBody resp)) = (feed, err)"
          by (cases "processHTML (htmlTokens (respBody resp)) (htmlErr (respBody resp))")
        then have "err \<noteq> None \<longrightarrow> feed = []" using processHTML_error_empty by auto
        moreover have "processURL L c u r w = ((feed, err), closeBody h w1)"
          using processURL_html [OF f', where ps = ps and r = r] p html h by simp
        ultimately show ?thesis using page [OF f'] by blast
      next
        case xml
        obtain nxt err where x: "processXML (unescapeString L) (xmlLines (respBody resp))
            (scanErr (respBody resp)) = (nxt, err)"
          by (cases "processXML (unescapeString L) (xmlLines (respBody resp)) (scanErr (respBody resp))")
        show ?thesis
        proof (cases err)
          case None
          with assms f' p xml x have False by (auto simp: hop_def)
          then show ?thesis ..
        next
          case (Some e)
          with processURL_xml_err [OF f' p xml, where nxt = nxt and e = e and r = r] x page [OF f'] show ?thesis by blast
        qed
      next
        case other
        from processURL_unexpected [OF f' p other] page [OF f'] show ?thesis by blast
      qed
    qed
  qed
qed

lemma processURL_error_empty:
  "snd (fst (processURL L c u r w)) \<noteq> None \<longrightarrow> fst (fst (processURL L c u r w)) = []"
proof (induction u r w rule: processURL_hop_induct [where L = L and c = c])
  case (leaf u r w)
  then show ?case by (rule processURL_leaf [where r = r]) auto
next
  case (limit u r w nxt h w1)
  show ?case by simp
next
  case (step u r w nxt h w1)
  then show ?case by simp
qed

lemma events_closeBody [simp]: "events (closeBody h w) = events w @ [Close h]"
  by (simp add: closeBody_def)

lemma transport_closeBody [simp]: "transport (closeBody h w) = transport w"
  by (simp add: closeBody_def)

lemma events_fold_closeBody [simp]: "events (fold closeBody hs w) = events w @ map Close hs"
  by (induction hs arbitrary: w) simp_all

lemma transport_fold_closeBody [simp]: "transport (fold closeBody hs w) = transport w"
  by (induction hs arbitrary: w) simp_all

lemma fetches_append [simp]: "fetches (xs @ ys) = fetches xs + fetches ys"
  by (simp add: fetches_def)

lemma fetches_simps [simp]:
  "fetches [] = 0" "fetches (Do q b # es) = Suc (fetches es)" "fetches (Close h # es) = fetches es"
  by (simp_all add: fetches_def)

lemma fetches_map_Close [simp]: "fetches (map Close hs) = 0"
  by (induction hs) simp_all

lemma follow_SucD:
  assumes "follow L c (Suc n) u w = Some (u', hs, w')"
  obtains nxt h w1 hs' where "hop L c u w = Some (nxt, h, w1)"
    "follow L c n nxt w1 = Some (u', hs', w')" "hs = h # hs'"
  using assms by (auto split: option.splits)

lemma follow_processURL:
  "follow L c n u w = Some (u', hs, w') \<Longrightarrow> r + int n \<le> maxRedirects \<Longrightarrow>
   processURL L c u r w =
     (fst (processURL L c u' (r + int n) w'),
      fold closeBody (rev hs) (snd (processURL L c u' (r + int n) w')))"
proof (induction n arbitrary: u w r hs)
  case 0
  then show ?case by simp
next
  case (Suc n)
  from Suc.prems(1) obtain nxt h w1 hs' where h: "hop L c u w = Some (nxt, h, w1)"
    and f: "follow L c n nxt w1 = Some (u', hs', w')" and hs: "hs = h # hs'"
    by (rule follow_SucD)
  from Suc.prems(2) have le: "\<not> r + 1 > maxRedirects" "(r + 1) + int n \<le> maxRedirects" by simp_all
  have eq: "r + 1 + int n = r + int (Suc n)" by simp
  from Suc.IH [OF f le(2)] processURL_hop_step [OF h le(1)] show ?case
    by (simp add: hs eq)
qed

lemma follow_too_many:
  "follow L c (Suc n) u w = Some (u', hs, w') \<Longrightarrow> r + int n = maxRedirects \<Longrightarrow>
   processURL L c u r w = (([], Some (New ''too many redirects'')), fold closeBody (rev hs) w')"
proof (induction n arbitrary: u w r hs)
  case 0
  from "0.prems"(1) obtain nxt h w1 hs' where h: "hop L c u w = Some (nxt, h, w1)"
    and f: "follow L c 0 nxt w1 = Some (u', hs', w')" and hs: "hs = h # hs'"
    by (rule follow_SucD)
  from "0.prems"(2) have "r + 1 > maxRedirects" by simp
  from processURL_hop_limit [OF h this] f hs show ?case by simp
next
  case (Suc n)
  from Suc.prems(1) obtain nxt h w1 hs' where h: "hop L c u w = Some (nxt, h, w1)"
    and f: "follow L c (Suc n) nxt w1 = Some (u', hs', w')" and hs: "hs = h # hs'"
    by (rule follow_SucD)
  from Suc.prems(2) have le: "\<not> r + 1 > maxRedirects" "(r + 1) + int n = maxRedirects" by simp_all
  from Suc.IH [OF f le(2)] processURL_hop_step [OF h le(1)] show ?case
    by (simp add: hs)
qed

lemma follow_world:
  "follow L c n u w = Some (u', hs, w') \<Longrightarrow>
   length hs = n \<and> fetches (events w') = fetches (events w) + n
   \<and> (\<exists>dos. events w' = events w @ dos \<and> list_all isDo dos)"
proof (induction n arbitrary: u w hs)
  case 0
  then show ?case by simp
next
  case (Suc n)
  from Suc.prems(1) obtain nxt h w1 hs' where h: "hop L c u w = Some (nxt, h, w1)"
    and f: "follow L c n nxt w1 = Some (u', hs', w')" and hs: "hs = h # hs'"
    by (rule follow_SucD)
  from hop_events [OF h] have e: "events w1 = events w @ [Do (getRequest u) (Some h)]" by simp
  from Suc.IH [OF f] obtain dos where d: "length hs' = n"
    "fetches (events w') = fetches (events w1) + n" "events w' = events w1 @ dos" "list_all isDo dos"
    by blast
  have "events w' = events w @ (Do (getRequest u) (Some h) # dos)
        \<and> list_all isDo (Do (getRequest u) (Some h) # dos)"
    using d e by simp
  then have "\<exists>dos. events w' = events w @ dos \<and> list_all isDo dos" by blast
  moreover have "length hs = Suc n" "fetches (events w') = fetches (events w) + Suc n"
    using d e hs by simp_all
  ultimately show ?case by blast
qed

lemma processURL_fetch_bound:
  "r \<le> maxRedirects \<longrightarrow>
   fetches (events (snd (processURL L c u r w))) \<le> fetches (events w) + nat (maxRedirects + 1 - r)"
proof (induction u r w rule: processURL_hop_induct [where L = L and c = c])
  case (leaf u r w)
  from leaf show ?case
  proof (rule processURL_leaf [where r = r])
    fix e w1
    assume "fetch L c u w = (Inl e, w1)"
      "processURL L c u r w = (([], Some (New (''fetch error: '' @ message (quote L) e))), w1)"
    with fetch_Inl [of L c u w e w1] show ?thesis by auto
  next
    fix resp h w1 feed err
    assume "fetch L c u w = (Inr (resp, h), w1)"
      "processURL L c u r w = ((feed, err), closeBody h w1)"
    with fetch_Inr [of L c u w resp h w1] show ?thesis by auto
  qed
next
  case (limit u r w nxt h w1)
  with hop_events [of L c u w nxt h w1] show ?case by auto
next
  case (step u r w nxt h w1)
  with hop_events [of L c u w nxt h w1] show ?case by auto
qed

lemma scoped_append_Do_Close:
  "scoped (Do q (Some h) # Close h # es) st = scoped es st"
  by simp

lemma processURL_scoped:
  "\<exists>new. events (snd (processURL L c u r w)) = events w @ new
         \<and> (\<forall>rest st. scoped (new @ rest) st = scoped rest st)"
proof (induction u r w rule: processURL_hop_induct [where L = L and c = c])
  case (leaf u r w)
  from leaf show ?case
  proof (rule processURL_leaf [where r = r])
    fix e w1
    assume a: "fetch L c u w = (Inl e, w1)"
      "processURL L c u r w = (([], Some (New (''fetch error: '' @ message (quote L) e))), w1)"
    from fetch_Inl [OF a(1)] consider "events w1 = events w @ []"
      | "events w1 = events w @ [Do (getRequest u) None]"
      | "events w1 = events w @ [Do (getRequest u) (Some (fetches (events w))), Close (fetches (events w))]"
      by auto
    then show ?thesis
    proof cases
      case 1
      have "\<forall>rest st. scoped ([] @ rest) st = scoped rest st" by simp
      with 1 a(2) show ?thesis by (metis snd_conv)
    next
      case 2
      have "\<forall>rest st. scoped ([Do (getRequest u) None] @ rest) st = scoped rest st" by simp
      with 2 a(2) show ?thesis by (metis snd_conv)
    next
      case 3
      have "\<forall>rest st. scoped ([Do (getRequest u) (Some (fetches (events w))), Close (fetches (events w))] @ rest) st = scoped rest st" by simp
      with 3 a(2) show ?thesis by (metis snd_conv)
    qed
  next
    fix resp h w1 feed err
    assume a: "fetch L c u w = (Inr (resp, h), w1)"
      "processURL L c u r w = ((feed, err), closeBody h w1)"
    from fetch_Inr [OF a(1)] have "events w1 = events w @ [Do (getRequest u) (Some h)]" by simp
    with a(2) have "events (snd (processURL L c u r w)) = events w @ [Do (getRequest u) (Some h), Close h]"
      by simp
    moreover have "\<forall>rest st. scoped ([Do (getRequest u) (Some h), Close h] @ rest) st = scoped rest st"
      by simp
    ultimately show ?thesis by blast
  qed
next
  case (limit u r w nxt h w1)
  from hop_events [OF limit(1)] have "events (closeBody h w1) = events w @ [Do (getRequest u) (Some h), Close h]"
    by simp
  moreover have "\<forall>rest st. scoped ([Do (getRequest u) (Some h), Close h] @ rest) st = scoped rest st"
    by simp
  ultimately show ?case by (metis snd_conv)
next
  case (step u r w nxt h w1)
  from step(3) obtain new where n: "events (snd (processURL L c nxt (r + 1) w1)) = events w1 @ new"
    "\<forall>rest st. scoped (new @ rest) st = scoped rest st" by blast
  from hop_events [OF step(1)] n(1)
  have "events (closeBody h (snd (processURL L c nxt (r + 1) w1)))
        = events w @ (Do (getRequest u) (Some h) # new @ [Close h])" by simp
  moreover have "\<forall>rest st. scoped ((Do (getRequest u) (Some h) # new @ [Close h]) @ rest) st = scoped rest st"
    using n(2) by simp
  ultimately show ?case by (metis snd_conv)
qed

lemma ToRSSClient_unfold:
  "ToRSSClient L co u w =
     ((fst (fst (processURL L (theClient L co) u 0 w)),
       if snd (fst (processURL L (theClient L co) u 0 w)) = Some EOF then Some ErrNoFeed
       else snd (fst (processURL L (theClient L co) u 0 w))),
      snd (processURL L (theClient L co) u 0 w))"
  by (simp add: ToRSSClient_def theClient_def case_prod_unfold Let_def)

lemma ToRSSClient_of:
  "processURL L c u 0 w = ((feed, err), w') \<Longrightarrow>
   ToRSSClient L (Some c) u w = ((feed, if err = Some EOF then Some ErrNoFeed else err), w')"
  by (simp add: ToRSSClient_def)

lemma added_append: "events w' = events w @ new \<Longrightarrow> added w w' = new"
  by (simp add: added_def)

lemma processURL_added_scoped:
  "events (snd (processURL L c u r w)) = events w @ added w (snd (processURL L c u r w))
   \<and> scoped (added w (snd (processURL L c u r w))) []"
proof -
  from processURL_scoped [of L c u r w] obtain new
    where n: "events (snd (processURL L c u r w)) = events w @ new"
      "\<forall>rest st. scoped (new @ rest) st = scoped rest st" by blast
  from n(2) have "scoped (new @ []) [] = scoped [] []" by blast
  then have "scoped new []" by simp
  with n(1) added_append [OF n(1)] show ?thesis by simp
qed

section \<open>The resolution pipeline: properties\<close>

text \<open>
  C5.  Once a response with status 200 has been fetched, \<^verbatim>\<open>processURL\<close> dispatches on the
  media type that \<^verbatim>\<open>mime.ParseMediaType\<close> returns for the Content-Type header and on nothing
  else (the parameters \<open>ps\<close> do not occur in the outcome).  A header that does not parse
  fails with \<^verbatim>\<open>bad Content Type %q: %s\<close> of the raw header and the parser's error;
  \<^verbatim>\<open>text/html\<close> gives what \<^verbatim>\<open>processHTML\<close> gives on the body; \<^verbatim>\<open>text/xml\<close> and
  \<^verbatim>\<open>application/xml\<close> run \<^verbatim>\<open>processXML\<close> on the body, pass its error on, and otherwise either
  fail at the redirect limit or give what the nested call on the extracted URL gives; any
  other media type fails with \<^verbatim>\<open>unexpected Content Type %q\<close> of the raw header.  The
  counter \<open>r\<close> ranges over the values it has in a run, 0 to 3.
\<close>

theorem content_type_dispatch:
  "fetch L c u w = (Inr (resp, h), w1) \<Longrightarrow> 0 \<le> r \<Longrightarrow> r \<le> maxRedirects \<Longrightarrow>
   (parseMediaType L (contentType resp) = Inl e
      \<longrightarrow> fst (processURL L c u r w)
          = ([], Some (New (''bad Content Type '' @ quote L (contentType resp) @ '': ''
                             @ message (quote L) e))))
   \<and> (parseMediaType L (contentType resp) = Inr (''text/html'', ps)
      \<longrightarrow> fst (processURL L c u r w)
          = processHTML (htmlTokens (respBody resp)) (htmlErr (respBody resp)))
   \<and> (parseMediaType L (contentType resp) = Inr (m, ps) \<and> (m = ''text/xml'' \<or> m = ''application/xml'')
      \<longrightarrow> fst (processURL L c u r w)
          = (case processXML (unescapeString L) (xmlLines (respBody resp))
                    (scanErr (respBody resp)) of
               (nxt, Some err) \<Rightarrow> ([], Some err)
             | (nxt, None) \<Rightarrow>
                 if r + 1 > maxRedirects then ([], Some (New ''too many redirects''))
                 else fst (processURL L c nxt (r + 1) w1)))
   \<and> (parseMediaType L (contentType resp) = Inr (m, ps)
        \<and> m \<noteq> ''text/html'' \<and> m \<noteq> ''text/xml'' \<and> m \<noteq> ''application/xml''
      \<longrightarrow> fst (processURL L c u r w)
          = ([], Some (New (''unexpected Content Type '' @ quote L (contentType resp)))))"
proof (intro conjI impI)
  assume f: "fetch L c u w = (Inr (resp, h), w1)"
  {
    assume "parseMediaType L (contentType resp) = Inl e"
    from processURL_bad_ctype [OF f this]
    show "fst (processURL L c u r w)
          = ([], Some (New (''bad Content Type '' @ quote L (contentType resp) @ '': ''
                             @ message (quote L) e)))" by simp
  next
    assume "parseMediaType L (contentType resp) = Inr (''text/html'', ps)"
    from processURL_html [OF f this]
    show "fst (processURL L c u r w)
          = processHTML (htmlTokens (respBody resp)) (htmlErr (respBody resp))" by simp
  next
    assume a: "parseMediaType L (contentType resp) = Inr (m, ps) \<and> (m = ''text/xml'' \<or> m = ''application/xml'')"
    then have p: "parseMediaType L (contentType resp) = Inr (m, ps)"
      and x: "m = ''text/xml'' \<or> m = ''application/xml''" by simp_all
    obtain nxt err where q: "processXML (unescapeString L) (xmlLines (respBody resp))
        (scanErr (respBody resp)) = (nxt, err)"
      by (cases "processXML (unescapeString L) (xmlLines (respBody resp)) (scanErr (respBody resp))")
    show "fst (processURL L c u r w)
          = (case processXML (unescapeString L) (xmlLines (respBody resp))
                    (scanErr (respBody resp)) of
               (nxt, Some err) \<Rightarrow> ([], Some err)
             | (nxt, None) \<Rightarrow>
                 if r + 1 > maxRedirects then ([], Some (New ''too many redirects''))
                 else fst (processURL L c nxt (r + 1) w1))"
    proof (cases err)
      case None
      with q processURL_xml_limit [OF f p x, where nxt = nxt and r = r] processURL_xml_step [OF f p x, where nxt = nxt and r = r]
      show ?thesis by (cases "r + 1 > maxRedirects") simp_all
    next
      case (Some e')
      with q processURL_xml_err [OF f p x, where nxt = nxt and e = e' and r = r] show ?thesis by simp
    qed
  next
    assume "parseMediaType L (contentType resp) = Inr (m, ps)
        \<and> m \<noteq> ''text/html'' \<and> m \<noteq> ''text/xml'' \<and> m \<noteq> ''application/xml''"
    then show "fst (processURL L c u r w)
          = ([], Some (New (''unexpected Content Type '' @ quote L (contentType resp))))"
      using processURL_unexpected [OF f, where m = m and ps = ps and r = r] by simp
  }
qed

theorem content_type_dispatch_witness:
  "fetch demoLib demoClient ''noct'' w0 = (Inr (untypedPage, 0), demoWorld [''noct''])
   \<and> parseMediaType demoLib (contentType untypedPage) = Inl (New ''mime: no media type'')
   \<and> fst (processURL demoLib demoClient ''noct'' 0 w0)
       = ([], Some (New (''bad Content Type '' @ quote demoLib (contentType untypedPage) @ '': ''
                          @ message (quote demoLib) (New ''mime: no media type''))))
   \<and> fetch demoLib demoClient ''feed'' w0
       = (Inr (htmlPage [divTag, feedButton, endButton], 0), demoWorld [''feed''])
   \<and> parseMediaType demoLib (contentType (htmlPage [divTag, feedButton, endButton]))
       = Inr (''text/html'', [])
   \<and> fst (processURL demoLib demoClient ''feed'' 0 w0)
       = processHTML (htmlTokens (respBody (htmlPage [divTag, feedButton, endButton])))
           (htmlErr (respBody (htmlPage [divTag, feedButton, endButton])))
   \<and> fetch demoLib demoClient ''q0'' w0 = (Inr (xmlPage [''<dict>'', prevLine], 0), demoWorld [''q0''])
   \<and> parseMediaType demoLib (contentType (xmlPage [''<dict>'', prevLine])) = Inr (''text/xml'', [])
   \<and> fst (processURL demoLib demoClient ''q0'' 0 w0) = ([], Some EOF)
   \<and> fetch demoLib demoClient ''png'' w0 = (Inr (pngPage, 0), demoWorld [''png''])
   \<and> parseMediaType demoLib (contentType pngPage) = Inr (''image/png'', [])
   \<and> fst (processURL demoLib demoClient ''png'' 0 w0)
       = ([], Some (New (''unexpected Content Type '' @ quote demoLib (contentType pngPage))))"
proof -
  have r0: "(0::int) \<le> 0" "(0::int) \<le> maxRedirects" by (simp_all add: maxRedirects_def)
  have f1: "fetch demoLib demoClient ''noct'' w0 = (Inr (untypedPage, 0), demoWorld [''noct''])"
    by code_simp
  have p1: "parseMediaType demoLib (contentType untypedPage) = Inl (New ''mime: no media type'')"
    by code_simp
  have f2: "fetch demoLib demoClient ''feed'' w0
       = (Inr (htmlPage [divTag, feedButton, endButton], 0), demoWorld [''feed''])"
    by code_simp
  have p2: "parseMediaType demoLib (contentType (htmlPage [divTag, feedButton, endButton]))
       = Inr (''text/html'', [])"
    by code_simp
  have f3: "fetch demoLib demoClient ''q0'' w0 = (Inr (xmlPage [''<dict>'', prevLine], 0), demoWorld [''q0''])"
    by code_simp
  have p3: "parseMediaType demoLib (contentType (xmlPage [''<dict>'', prevLine])) = Inr (''text/xml'', [])"
    by code_simp
  have x3: "processXML (unescapeString demoLib) (xmlLines (respBody (xmlPage [''<dict>'', prevLine])))
      (scanErr (respBody (xmlPage [''<dict>'', prevLine]))) = ([], Some EOF)"
    by code_simp
  have f4: "fetch demoLib demoClient ''png'' w0 = (Inr (pngPage, 0), demoWorld [''png''])"
    by code_simp
  have p4: "parseMediaType demoLib (contentType pngPage) = Inr (''image/png'', [])"
    by code_simp
  from content_type_dispatch [OF f1 r0, where e = "New ''mime: no media type''"] p1
  have c1: "fst (processURL demoLib demoClient ''noct'' 0 w0)
       = ([], Some (New (''bad Content Type '' @ quote demoLib (contentType untypedPage) @ '': ''
                          @ message (quote demoLib) (New ''mime: no media type''))))"
    by blast
  from content_type_dispatch [OF f2 r0, where ps = "[]"] p2
  have c2: "fst (processURL demoLib demoClient ''feed'' 0 w0)
       = processHTML (htmlTokens (respBody (htmlPage [divTag, feedButton, endButton])))
           (htmlErr (respBody (htmlPage [divTag, feedButton, endButton])))"
    by blast
  from content_type_dispatch [OF f3 r0, where m = "''text/xml''" and ps = "[]"] p3
  have "fst (processURL demoLib demoClient ''q0'' 0 w0)
     = (case processXML (unescapeString demoLib) (xmlLines (respBody (xmlPage [''<dict>'', prevLine])))
                    (scanErr (respBody (xmlPage [''<dict>'', prevLine]))) of
               (nxt, Some err) \<Rightarrow> ([], Some err)
             | (nxt, None) \<Rightarrow>
                 if 0 + 1 > maxRedirects then ([], Some (New ''too many redirects''))
                 else fst (processURL demoLib demoClient nxt (0 + 1) (demoWorld [''q0''])))"
    by blast
  then have c3: "fst (processURL demoLib demoClient ''q0'' 0 w0) = ([], Some EOF)"
    by (simp only: x3 prod.case option.case)
  from content_type_dispatch [OF f4 r0, where m = "''image/png''" and ps = "[]"] p4
  have c4: "fst (processURL demoLib demoClient ''png'' 0 w0)
       = ([], Some (New (''unexpected Content Type '' @ quote demoLib (contentType pngPage))))"
    by simp
  from f1 p1 c1 f2 p2 c2 f3 p3 c3 f4 p4 c4 show ?thesis by (intro conjI)
qed

text \<open>
  C6, as amended.  For a URL that \<^verbatim>\<open>http.NewRequest\<close> rejects, resolution fails, without
  calling the client, with the message \<^verbatim>\<open>fetch error: bad URL: \<close> followed by the text of
  the library's error, one level of \<^verbatim>\<open>*url.Error\<close> wrapping stripped from it.
\<close>

theorem bad_url_error:
  "urlParse L u = Some e \<Longrightarrow>
   ToRSSClient L co u w =
     (([], Some (New (''fetch error: bad URL: ''
                      @ message (quote L) (case e of URLError op v e' \<Rightarrow> e' | _ \<Rightarrow> e)))), w)"
proof -
  assume "urlParse L u = Some e"
  from processURL_fetch_err [OF fetch_badURL [OF this]] show ?thesis
    by (simp add: ToRSSClient_unfold)
qed

theorem bad_url_error_witness:
  "urlParse demoLib ''://x'' = Some (URLError ''parse'' ''://x'' (New ''missing protocol scheme''))
   \<and> ToRSSClient demoLib None ''://x'' w0
       = (([], Some (New ''fetch error: bad URL: missing protocol scheme'')), w0)"
proof -
  have h: "urlParse demoLib ''://x'' = Some (URLError ''parse'' ''://x'' (New ''missing protocol scheme''))"
    by code_simp
  from bad_url_error [OF h, of None w0] h show ?thesis by simp
qed

text \<open>
  C6 as stated fails: the message is not the parser's cause alone.  For the URL
  \<^verbatim>\<open>://x\<close>, rejected with the cause \<^verbatim>\<open>missing protocol scheme\<close>, the message carries
  the two prefixes that \<^verbatim>\<open>fetch\<close> and \<^verbatim>\<open>processURL\<close> add.
\<close>

theorem bad_url_message_counterexample:
  "urlParse demoLib ''://x'' = Some (URLError ''parse'' ''://x'' (New ''missing protocol scheme''))
   \<and> snd (fst (ToRSS demoLib ''://x'' w0))
       = Some (New ''fetch error: bad URL: missing protocol scheme'')
   \<and> map_option (message (quote demoLib)) (snd (fst (ToRSS demoLib ''://x'' w0)))
       \<noteq> Some ''missing protocol scheme''"
  by code_simp

text \<open>
  C7, as amended.  When the client answers with a status code other than 200, the body of
  the response is closed right after the call of the client, nothing else is done, and the
  call fails with the message \<^verbatim>\<open>fetch error: HTTP Status \<close> followed by the response's
  status text (\<^verbatim>\<open>resp.Status\<close>, such as \<^verbatim>\<open>404 Not Found\<close>) as the transport supplied it.
  This holds at every hop, whatever the redirect counter.
\<close>

theorem bad_status_error:
  "urlParse L u = None \<Longrightarrow> c (getRequest u) (transport w) = (Inr resp, s') \<Longrightarrow>
   statusCode resp \<noteq> 200 \<Longrightarrow>
   processURL L c u r w =
     (([], Some (New (''fetch error: HTTP Status '' @ status resp))),
      w\<lparr>transport := s',
        events := events w @ [Do (getRequest u) (Some (fetches (events w))),
                              Close (fetches (events w))]\<rparr>)
   \<and> ToRSSClient L (Some c) u w =
     (([], Some (New (''fetch error: HTTP Status '' @ status resp))),
      w\<lparr>transport := s',
        events := events w @ [Do (getRequest u) (Some (fetches (events w))),
                              Close (fetches (events w))]\<rparr>)"
proof -
  assume a: "urlParse L u = None" "c (getRequest u) (transport w) = (Inr resp, s')"
    "statusCode resp \<noteq> 200"
  have p: "processURL L c u r w =
     (([], Some (New (''fetch error: HTTP Status '' @ status resp))),
      w\<lparr>transport := s',
        events := events w @ [Do (getRequest u) (Some (fetches (events w))),
                              Close (fetches (events w))]\<rparr>)" for r
    using processURL_fetch_err [OF fetch_status [where c = c, OF a]] by simp
  from p [of r] ToRSSClient_of [OF p [of 0]] show ?thesis by simp
qed

theorem bad_status_error_witness:
  "urlParse demoLib ''gone'' = None
   \<and> demoClient (getRequest ''gone'') (transport w0) = (Inr gonePage, 1)
   \<and> statusCode gonePage \<noteq> 200
   \<and> ToRSSClient demoLib (Some demoClient) ''gone'' w0 =
     (([], Some (New (''fetch error: HTTP Status '' @ status gonePage))),
      w0\<lparr>transport := 1,
         events := events w0 @ [Do (getRequest ''gone'') (Some (fetches (events w0))),
                                Close (fetches (events w0))]\<rparr>)"
proof -
  have h1: "urlParse demoLib ''gone'' = None" by code_simp
  have h2: "demoClient (getRequest ''gone'') (transport w0) = (Inr gonePage, 1)" by code_simp
  have h3: "statusCode gonePage \<noteq> 200" by code_simp
  from bad_status_error [where c = demoClient, OF h1 h2 h3, of 0] h1 h2 h3 show ?thesis by blast
qed

text \<open>
  C7 as stated fails: for a response with status \<^verbatim>\<open>404 Not Found\<close> the message is not
  \<^verbatim>\<open>bad HTTP Status: 404 Not Found\<close>, and the text after the code is the one the
  transport supplied, standard or not.
\<close>

theorem bad_status_message_counterexample:
  "demoClient (getRequest ''gone'') (transport w0) = (Inr gonePage, 1)
   \<and> statusCode gonePage = 404 \<and> status gonePage = ''404 Not Found''
   \<and> snd (fst (ToRSSClient demoLib (Some demoClient) ''gone'' w0))
       = Some (New ''fetch error: HTTP Status 404 Not Found'')
   \<and> map_option (message (quote demoLib))
        (snd (fst (ToRSSClient demoLib (Some demoClient) ''gone'' w0)))
       \<noteq> Some ''bad HTTP Status: 404 Not Found''
   \<and> demoClient (getRequest ''odd'') (transport w0) = (Inr oddPage, 1)
   \<and> statusCode oddPage = 404 \<and> status oddPage = ''404 Nope''
   \<and> snd (fst (ToRSSClient demoLib (Some demoClient) ''odd'' w0))
       = Some (New ''fetch error: HTTP Status 404 Nope'')"
  by code_simp

text \<open>
  C1.  A resolution starts \<^verbatim>\<open>processURL\<close> with the counter 0, and after a chain of \<open>n\<close>
  structured redirects, \<open>n\<close> at most 3, its outcome is that of the nested call on the last
  target with the counter \<open>n\<close>; if that target is an HTML page with a feed button, the
  resolution succeeds with its feed URL.  A chain of 4 structured redirects, cyclic or
  not, ends with the error \<^verbatim>\<open>too many redirects\<close>: the client has been called exactly 4
  times, and not again after the fetch that produced the fourth target, so the fourth
  target is not fetched.  No resolution calls the client more than 4 times.
\<close>

theorem redirect_limit:
  "(follow L c n u w = Some (u', hs, w') \<and> int n \<le> maxRedirects
      \<longrightarrow> processURL L c u 0 w =
            (fst (processURL L c u' (int n) w'),
             fold closeBody (rev hs) (snd (processURL L c u' (int n) w'))))
   \<and> (follow L c n u w = Some (u', hs, w') \<and> int n \<le> maxRedirects
        \<and> fetch L c u' w' = (Inr (resp, h), w1)
        \<and> parseMediaType L (contentType resp) = Inr (''text/html'', ps)
        \<and> processHTML (htmlTokens (respBody resp)) (htmlErr (respBody resp)) = (feed, None)
      \<longrightarrow> ToRSSClient L (Some c) u w = ((feed, None), fold closeBody (rev (hs @ [h])) w1))
   \<and> (follow L c 4 u w = Some (u', hs, w')
      \<longrightarrow> ToRSSClient L (Some c) u w
            = (([], Some (New ''too many redirects'')), fold closeBody (rev hs) w')
          \<and> transport (snd (ToRSSClient L (Some c) u w)) = transport w'
          \<and> fetches (events (snd (ToRSSClient L (Some c) u w))) = fetches (events w) + 4)
   \<and> fetches (events (snd (ToRSSClient L co u w))) \<le> fetches (events w) + 4"
proof (intro conjI impI)
  assume "follow L c n u w = Some (u', hs, w') \<and> int n \<le> maxRedirects"
  then show "processURL L c u 0 w =
            (fst (processURL L c u' (int n) w'),
             fold closeBody (rev hs) (snd (processURL L c u' (int n) w')))"
    using follow_processURL [of L c n u w u' hs w' 0] by simp
next
  assume a: "follow L c n u w = Some (u', hs, w') \<and> int n \<le> maxRedirects
        \<and> fetch L c u' w' = (Inr (resp, h), w1)
        \<and> parseMediaType L (contentType resp) = Inr (''text/html'', ps)
        \<and> processHTML (htmlTokens (respBody resp)) (htmlErr (respBody resp)) = (feed, None)"
  then have "processURL L c u' (int n) w' = ((feed, None), closeBody h w1)"
    using processURL_html [of L c u' w' resp h w1 ps "int n"] by simp
  with a have "processURL L c u 0 w = ((feed, None), fold closeBody (rev (hs @ [h])) w1)"
    using follow_processURL [of L c n u w u' hs w' 0] by simp
  then show "ToRSSClient L (Some c) u w = ((feed, None), fold closeBody (rev (hs @ [h])) w1)"
    by (simp add: ToRSSClient_def)
next
  assume a: "follow L c 4 u w = Some (u', hs, w')"
  have four: "(4::nat) = Suc 3" by simp
  from a have p: "processURL L c u 0 w = (([], Some (New ''too many redirects'')), fold closeBody (rev hs) w')"
    using follow_too_many [of L c 3 u w u' hs w' 0] by (simp only: four) (simp add: maxRedirects_def)
  then have t: "ToRSSClient L (Some c) u w = (([], Some (New ''too many redirects'')), fold closeBody (rev hs) w')"
    by (simp add: ToRSSClient_def)
  from follow_world [OF a] have "fetches (events w') = fetches (events w) + 4" by simp
  with t show "ToRSSClient L (Some c) u w
            = (([], Some (New ''too many redirects'')), fold closeBody (rev hs) w')"
    and "transport (snd (ToRSSClient L (Some c) u w)) = transport w'"
    and "fetches (events (snd (ToRSSClient L (Some c) u w))) = fetches (events w) + 4"
    by simp_all
next
  show "fetches (events (snd (ToRSSClient L co u w))) \<le> fetches (events w) + 4"
    using processURL_fetch_bound [of 0 L "theClient L co" u w]
    by (simp add: ToRSSClient_unfold maxRedirects_def)
qed

theorem redirect_limit_witness:
  "follow demoLib demoClient 3 ''p3'' w0 = Some (''feed'', [0, 1, 2], demoWorld [''p3'', ''p2'', ''p1''])
   \<and> int 3 \<le> maxRedirects
   \<and> fetch demoLib demoClient ''feed'' (demoWorld [''p3'', ''p2'', ''p1''])
       = (Inr (htmlPage [divTag, feedButton, endButton], 3), demoWorld [''p3'', ''p2'', ''p1'', ''feed''])
   \<and> ToRSSClient demoLib (Some demoClient) ''p3'' w0
       = ((''http://feeds/rss'', None),
          fold closeBody (rev ([0, 1, 2] @ [3])) (demoWorld [''p3'', ''p2'', ''p1'', ''feed'']))
   \<and> follow demoLib demoClient 4 ''loop'' w0
       = Some (''loop'', [0, 1, 2, 3], demoWorld [''loop'', ''loop'', ''loop'', ''loop''])
   \<and> ToRSSClient demoLib (Some demoClient) ''loop'' w0
       = (([], Some (New ''too many redirects'')),
          fold closeBody (rev [0, 1, 2, 3]) (demoWorld [''loop'', ''loop'', ''loop'', ''loop'']))
   \<and> fetches (events (snd (ToRSSClient demoLib (Some demoClient) ''loop'' w0))) = fetches (events w0) + 4"
proof -
  have h1: "follow demoLib demoClient 3 ''p3'' w0
      = Some (''feed'', [0, 1, 2], demoWorld [''p3'', ''p2'', ''p1''])"
    by code_simp
  have h2: "int 3 \<le> maxRedirects" by (simp add: maxRedirects_def)
  have h3: "fetch demoLib demoClient ''feed'' (demoWorld [''p3'', ''p2'', ''p1''])
      = (Inr (htmlPage [divTag, feedButton, endButton], 3), demoWorld [''p3'', ''p2'', ''p1'', ''feed''])"
    by code_simp
  have h4: "parseMediaType demoLib (contentType (htmlPage [divTag, feedButton, endButton]))
      = Inr (''text/html'', [])"
    by code_simp
  have h5: "processHTML (htmlTokens (respBody (htmlPage [divTag, feedButton, endButton])))
        (htmlErr (respBody (htmlPage [divTag, feedButton, endButton])))
      = (''http://feeds/rss'', None)"
    by code_simp
  have h6: "follow demoLib demoClient 4 ''loop'' w0
      = Some (''loop'', [0, 1, 2, 3], demoWorld [''loop'', ''loop'', ''loop'', ''loop''])"
    by code_simp
  note a = redirect_limit [where L = demoLib and c = demoClient and co = "Some demoClient" and n = 3
      and u = "''p3''" and w = w0 and u' = "''feed''" and hs = "[0, 1, 2]"
      and w' = "demoWorld [''p3'', ''p2'', ''p1'']"
      and resp = "htmlPage [divTag, feedButton, endButton]" and h = 3
      and ?w1.0 = "demoWorld [''p3'', ''p2'', ''p1'', ''feed'']" and ps = "[]"
      and feed = "''http://feeds/rss''"]
  note b = redirect_limit [where L = demoLib and c = demoClient and co = "Some demoClient" and n = 0
      and u = "''loop''" and w = w0 and u' = "''loop''" and hs = "[0, 1, 2, 3]"
      and w' = "demoWorld [''loop'', ''loop'', ''loop'', ''loop'']"]
  from a h1 h2 h3 h4 h5 have c1: "ToRSSClient demoLib (Some demoClient) ''p3'' w0
       = ((''http://feeds/rss'', None),
          fold closeBody (rev ([0, 1, 2] @ [3])) (demoWorld [''p3'', ''p2'', ''p1'', ''feed'']))"
    by blast
  from b h6 have c2: "ToRSSClient demoLib (Some demoClient) ''loop'' w0
       = (([], Some (New ''too many redirects'')),
          fold closeBody (rev [0, 1, 2, 3]) (demoWorld [''loop'', ''loop'', ''loop'', ''loop'']))"
    and c3: "fetches (events (snd (ToRSSClient demoLib (Some demoClient) ''loop'' w0))) = fetches (events w0) + 4"
    by blast+
  from h1 h2 h3 h6 c1 c2 c3 show ?thesis by blast
qed

text \<open>
  C2.  \<^verbatim>\<open>ToRSSClient\<close> never returns \<^verbatim>\<open>io.EOF\<close>.  When, after a chain of at most 3
  structured redirects, the HTML extractor finds no feed button before the tokenizer ends
  with \<^verbatim>\<open>io.EOF\<close>, or the structured-redirect extractor ends with \<^verbatim>\<open>io.EOF\<close>, then
  \<^verbatim>\<open>processURL\<close> returns \<^verbatim>\<open>io.EOF\<close> untranslated from every depth and \<^verbatim>\<open>ToRSSClient\<close>
  returns the empty string with \<^verbatim>\<open>ErrNoFeed\<close>, whose message is \<^verbatim>\<open>no feed found\<close>.
\<close>

theorem no_feed_translation:
  "snd (fst (ToRSSClient L co u w)) \<noteq> Some EOF
   \<and> (follow L c n u w = Some (u', hs, w') \<and> int n \<le> maxRedirects
        \<and> fetch L c u' w' = (Inr (resp, h), w1)
        \<and> parseMediaType L (contentType resp) = Inr (m, ps)
        \<and> (m = ''text/html'' \<and> \<not> list_ex spec_feedButton (htmlTokens (respBody resp))
              \<and> htmlErr (respBody resp) = EOF
            \<or> (m = ''text/xml'' \<or> m = ''application/xml'')
              \<and> snd (processXML (unescapeString L) (xmlLines (respBody resp))
                       (scanErr (respBody resp))) = Some EOF)
      \<longrightarrow> fst (processURL L c u 0 w) = ([], Some EOF)
          \<and> fst (ToRSSClient L (Some c) u w) = ([], Some ErrNoFeed))
   \<and> message q ErrNoFeed = ''no feed found''"
proof (intro conjI impI)
  show "snd (fst (ToRSSClient L co u w)) \<noteq> Some EOF"
    by (simp add: ToRSSClient_unfold)
next
  assume a: "follow L c n u w = Some (u', hs, w') \<and> int n \<le> maxRedirects
        \<and> fetch L c u' w' = (Inr (resp, h), w1)
        \<and> parseMediaType L (contentType resp) = Inr (m, ps)
        \<and> (m = ''text/html'' \<and> \<not> list_ex spec_feedButton (htmlTokens (respBody resp))
              \<and> htmlErr (respBody resp) = EOF
            \<or> (m = ''text/xml'' \<or> m = ''application/xml'')
              \<and> snd (processXML (unescapeString L) (xmlLines (respBody resp))
                       (scanErr (respBody resp))) = Some EOF)"
  then have f: "fetch L c u' w' = (Inr (resp, h), w1)"
    and p: "parseMediaType L (contentType resp) = Inr (m, ps)" by simp_all
  from a consider
    (html) "m = ''text/html''" "\<not> list_ex spec_feedButton (htmlTokens (respBody resp))"
      "htmlErr (respBody resp) = EOF"
    | (xml) "m = ''text/xml'' \<or> m = ''application/xml''"
      "snd (processXML (unescapeString L) (xmlLines (respBody resp)) (scanErr (respBody resp))) = Some EOF"
    by blast
  then have "fst (processURL L c u' (int n) w') = ([], Some EOF)"
  proof cases
    case html
    from html(2) have "processHTML (htmlTokens (respBody resp)) (htmlErr (respBody resp))
        = ([], Some (htmlErr (respBody resp)))"
      using processHTML_skip [of "htmlTokens (respBody resp)" "[]"] by simp
    with html f p show ?thesis
      using processURL_html [of L c u' w' resp h w1 ps "int n"] by simp
  next
    case xml
    obtain nxt where "processXML (unescapeString L) (xmlLines (respBody resp)) (scanErr (respBody resp))
        = (nxt, Some EOF)"
      using xml(2) by (cases "processXML (unescapeString L) (xmlLines (respBody resp)) (scanErr (respBody resp))") simp
    from processURL_xml_err [OF f p xml(1) this] show ?thesis by simp
  qed
  with a have r: "fst (processURL L c u 0 w) = ([], Some EOF)"
    using follow_processURL [of L c n u w u' hs w' 0] by simp
  then show "fst (processURL L c u 0 w) = ([], Some EOF)" .
  from r show "fst (ToRSSClient L (Some c) u w) = ([], Some ErrNoFeed)"
    by (simp add: ToRSSClient_unfold theClient_def)
next
  show "message q ErrNoFeed = ''no feed found''" by simp
qed

theorem no_feed_translation_witness:
  "follow demoLib demoClient 1 ''q1'' w0 = Some (''q0'', [0], demoWorld [''q1''])
   \<and> int 1 \<le> maxRedirects
   \<and> fetch demoLib demoClient ''q0'' (demoWorld [''q1''])
       = (Inr (xmlPage [''<dict>'', prevLine], 1), demoWorld [''q1'', ''q0''])
   \<and> parseMediaType demoLib (contentType (xmlPage [''<dict>'', prevLine])) = Inr (''text/xml'', [])
   \<and> snd (processXML (unescapeString demoLib) (xmlLines (respBody (xmlPage [''<dict>'', prevLine])))
            (scanErr (respBody (xmlPage [''<dict>'', prevLine])))) = Some EOF
   \<and> fst (processURL demoLib demoClient ''q1'' 0 w0) = ([], Some EOF)
   \<and> fst (ToRSSClient demoLib (Some demoClient) ''q1'' w0) = ([], Some ErrNoFeed)
   \<and> follow demoLib demoClient 0 ''nofeed'' w0 = Some (''nofeed'', [], w0)
   \<and> fetch demoLib demoClient ''nofeed'' w0 = (Inr (htmlPage [divTag], 0), demoWorld [''nofeed''])
   \<and> parseMediaType demoLib (contentType (htmlPage [divTag])) = Inr (''text/html'', [])
   \<and> \<not> list_ex spec_feedButton (htmlTokens (respBody (htmlPage [divTag])))
   \<and> htmlErr (respBody (htmlPage [divTag])) = EOF
   \<and> fst (ToRSSClient demoLib (Some demoClient) ''nofeed'' w0) = ([], Some ErrNoFeed)"
proof -
  have h1: "follow demoLib demoClient 1 ''q1'' w0 = Some (''q0'', [0], demoWorld [''q1''])"
    by code_simp
  have h2: "int 1 \<le> maxRedirects" "int 0 \<le> maxRedirects" by (simp_all add: maxRedirects_def)
  have h3: "fetch demoLib demoClient ''q0'' (demoWorld [''q1''])
       = (Inr (xmlPage [''<dict>'', prevLine], 1), demoWorld [''q1'', ''q0''])"
    by code_simp
  have h4: "parseMediaType demoLib (contentType (xmlPage [''<dict>'', prevLine])) = Inr (''text/xml'', [])"
    by code_simp
  have h5: "snd (processXML (unescapeString demoLib) (xmlLines (respBody (xmlPage [''<dict>'', prevLine])))
            (scanErr (respBody (xmlPage [''<dict>'', prevLine])))) = Some EOF"
    by code_simp
  have g1: "follow demoLib demoClient 0 ''nofeed'' w0 = Some (''nofeed'', [], w0)" by simp
  have g3: "fetch demoLib demoClient ''nofeed'' w0 = (Inr (htmlPage [divTag], 0), demoWorld [''nofeed''])"
    by code_simp
  have g4: "parseMediaType demoLib (contentType (htmlPage [divTag])) = Inr (''text/html'', [])"
    by code_simp
  have g5: "\<not> list_ex spec_feedButton (htmlTokens (respBody (htmlPage [divTag])))"
    by code_simp
  have g6: "htmlErr (respBody (htmlPage [divTag])) = EOF" by code_simp
  note a = no_feed_translation [where L = demoLib and c = demoClient and co = "Some demoClient" and n = 1
      and u = "''q1''" and w = w0 and u' = "''q0''" and hs = "[0]" and w' = "demoWorld [''q1'']"
      and resp = "xmlPage [''<dict>'', prevLine]" and h = 1 and ?w1.0 = "demoWorld [''q1'', ''q0'']"
      and m = "''text/xml''" and ps = "[]"]
  note b = no_feed_translation [where L = demoLib and c = demoClient and co = "Some demoClient" and n = 0
      and u = "''nofeed''" and w = w0 and u' = "''nofeed''" and hs = "[]" and w' = w0
      and resp = "htmlPage [divTag]" and h = 0 and ?w1.0 = "demoWorld [''nofeed'']"
      and m = "''text/html''" and ps = "[]"]
  from a h1 h2 h3 h4 h5 have c1: "fst (processURL demoLib demoClient ''q1'' 0 w0) = ([], Some EOF)"
    and c2: "fst (ToRSSClient demoLib (Some demoClient) ''q1'' w0) = ([], Some ErrNoFeed)"
    by blast+
  from b g1 h2 g3 g4 g5 g6 have c3: "fst (ToRSSClient demoLib (Some demoClient) ''nofeed'' w0) = ([], Some ErrNoFeed)"
    by blast
  from h1 h2 h3 h4 h5 g1 g3 g4 g5 g6 c1 c2 c3 show ?thesis by blast
qed

text \<open>
  C8, as amended.  Every body obtained during a call is closed exactly once by the time
  the call returns, on every exit path: the events a call adds to the log are scoped.
  The body of a hop is closed when the call that fetched it returns, that is after the
  nested call, if there is one, has returned and closed its own bodies: the events added
  are the call of the client, a scoped run, and the closing of the body.
\<close>

theorem bodies_closed_on_return:
  "events (snd (ToRSSClient L co u w)) = events w @ added w (snd (ToRSSClient L co u w))
   \<and> scoped (added w (snd (ToRSSClient L co u w))) []
   \<and> events (snd (processURL L c u r w)) = events w @ added w (snd (processURL L c u r w))
   \<and> scoped (added w (snd (processURL L c u r w))) []
   \<and> (fetch L c u w = (Inr (resp, h), w1)
      \<longrightarrow> added w (snd (processURL L c u r w))
            = Do (getRequest u) (Some h) # butlast (added w1 (snd (processURL L c u r w))) @ [Close h]
          \<and> scoped (butlast (added w1 (snd (processURL L c u r w)))) [])"
proof (intro conjI impI)
  from processURL_added_scoped [of L "theClient L co" u 0 w]
  show "events (snd (ToRSSClient L co u w)) = events w @ added w (snd (ToRSSClient L co u w))"
    and "scoped (added w (snd (ToRSSClient L co u w))) []"
    by (simp_all add: ToRSSClient_unfold)
next
  from processURL_added_scoped [of L c u r w]
  show "events (snd (processURL L c u r w)) = events w @ added w (snd (processURL L c u r w))"
    and "scoped (added w (snd (processURL L c u r w))) []"
    by simp_all
next
  assume f: "fetch L c u w = (Inr (resp, h), w1)"
  from fetch_Inr [OF f] have e1: "events w1 = events w @ [Do (getRequest u) (Some h)]" by simp
  have "\<exists>mid. events (snd (processURL L c u r w)) = events w1 @ mid @ [Close h] \<and> scoped mid []"
  proof (cases "hop L c u w")
    case None
    then show ?thesis
    proof (rule processURL_leaf [where r = r])
      fix e w1'
      assume "fetch L c u w = (Inl e, w1')"
      with f show ?thesis by simp
    next
      fix resp' h' w1' feed err
      assume "fetch L c u w = (Inr (resp', h'), w1')"
        "processURL L c u r w = ((feed, err), closeBody h' w1')"
      with f have "events (snd (processURL L c u r w)) = events w1 @ [] @ [Close h]" by simp
      moreover have "scoped [] []" by simp
      ultimately show ?thesis by blast
    qed
  next
    case (Some x)
    obtain nxt h' w1' where x: "x = (nxt, h', w1')" by (cases x)
    with Some have hp: "hop L c u w = Some (nxt, h', w1')" by simp
    from hp f have eq: "h' = h" "w1' = w1" by (auto elim!: hop_SomeD)
    show ?thesis
    proof (cases "r + 1 > maxRedirects")
      case True
      from processURL_hop_limit [OF hp True] eq
      have "events (snd (processURL L c u r w)) = events w1 @ [] @ [Close h]" by simp
      moreover have "scoped [] []" by simp
      ultimately show ?thesis by blast
    next
      case False
      from processURL_added_scoped [of L c nxt "r + 1" w1]
      have "scoped (added w1 (snd (processURL L c nxt (r + 1) w1))) []"
        and "events (snd (processURL L c nxt (r + 1) w1))
             = events w1 @ added w1 (snd (processURL L c nxt (r + 1) w1))" by simp_all
      moreover from this(2) processURL_hop_step [OF hp False] eq
      have "events (snd (processURL L c u r w))
            = events w1 @ added w1 (snd (processURL L c nxt (r + 1) w1)) @ [Close h]" by simp
      ultimately show ?thesis by blast
    qed
  qed
  then obtain mid where m: "events (snd (processURL L c u r w)) = events w1 @ mid @ [Close h]"
    "scoped mid []" by blast
  from added_append [OF m(1)] have a1: "added w1 (snd (processURL L c u r w)) = mid @ [Close h]" .
  from m(1) e1 have "events (snd (processURL L c u r w))
      = events w @ (Do (getRequest u) (Some h) # mid @ [Close h])" by simp
  from added_append [OF this]
  have a0: "added w (snd (processURL L c u r w)) = Do (getRequest u) (Some h) # mid @ [Close h]" .
  from a0 a1 show "added w (snd (processURL L c u r w))
            = Do (getRequest u) (Some h) # butlast (added w1 (snd (processURL L c u r w))) @ [Close h]"
    by simp
  from a1 m(2) show "scoped (butlast (added w1 (snd (processURL L c u r w)))) []" by simp
qed

theorem bodies_closed_on_return_witness:
  "fetch demoLib demoClient ''p1'' w0 = (Inr (gotoPage ''feed'', 0), demoWorld [''p1''])
   \<and> added w0 (snd (processURL demoLib demoClient ''p1'' 0 w0))
       = Do (getRequest ''p1'') (Some 0)
         # butlast (added (demoWorld [''p1'']) (snd (processURL demoLib demoClient ''p1'' 0 w0)))
         @ [Close 0]
   \<and> scoped (butlast (added (demoWorld [''p1'']) (snd (processURL demoLib demoClient ''p1'' 0 w0)))) []
   \<and> scoped (added w0 (snd (ToRSSClient demoLib (Some demoClient) ''p1'' w0))) []"
proof -
  have h: "fetch demoLib demoClient ''p1'' w0 = (Inr (gotoPage ''feed'', 0), demoWorld [''p1''])"
    by code_simp
  from bodies_closed_on_return [where L = demoLib and co = "Some demoClient" and c = demoClient and u = "''p1''"
      and w = w0 and r = 0 and resp = "gotoPage ''feed''" and h = 0 and ?w1.0 = "demoWorld [''p1'']"] h
  show ?thesis by blast
qed

text \<open>
  C8 as stated fails where it says that the body is closed before the call recurses: in a
  resolution with one redirect, the client is called for the second page while the body
  of the first is still open.
\<close>

theorem body_open_while_recursing_counterexample:
  "events (snd (ToRSSClient demoLib (Some demoClient) ''p1'' w0))
     = [Do (getRequest ''p1'') (Some 0), Do (getRequest ''feed'') (Some 1), Close 1, Close 0]
   \<and> \<not> spec_scoped (events (snd (ToRSSClient demoLib (Some demoClient) ''p1'' w0))) []"
  by code_simp

text \<open>
  C10.  When \<^verbatim>\<open>ToRSSClient\<close> returns a non-nil error, the feed URL it returns is the empty
  string; a non-empty feed URL comes with a nil error only.
\<close>

theorem error_means_empty_feed:
  "ToRSSClient L co u w = ((feed, err), w') \<Longrightarrow>
   (err \<noteq> None \<longrightarrow> feed = []) \<and> (feed \<noteq> [] \<longrightarrow> err = None)"
  using processURL_error_empty [of L "theClient L co" u 0 w]
  by (auto simp: ToRSSClient_unfold split: if_splits)

theorem error_means_empty_feed_witness:
  "ToRSSClient demoLib (Some demoClient) ''nofeed'' w0
     = (([], Some ErrNoFeed), closeBody 0 (demoWorld [''nofeed'']))
   \<and> Some ErrNoFeed \<noteq> (None :: error option)
   \<and> ToRSSClient demoLib (Some demoClient) ''feed'' w0
     = ((''http://feeds/rss'', None), closeBody 0 (demoWorld [''feed'']))
   \<and> ''http://feeds/rss'' \<noteq> []"
proof -
  have h1: "ToRSSClient demoLib (Some demoClient) ''nofeed'' w0
     = (([], Some ErrNoFeed), closeBody 0 (demoWorld [''nofeed'']))" by code_simp
  have h2: "ToRSSClient demoLib (Some demoClient) ''feed'' w0
     = ((''http://feeds/rss'', None), closeBody 0 (demoWorld [''feed'']))" by code_simp
  from error_means_empty_feed [OF h1] error_means_empty_feed [OF h2] h1 h2 show ?thesis by simp
qed

end
